theory Spec2Isabelle
  imports Complex_Main "HOL-Library.Word"
begin

section \<open>A model of volctl's PulseAudio wrapper (volctl/lib/pa\_wrapper.py)\<close>

text \<open>
  The Python module keeps three dictionaries of entities (clients, sinks, sink inputs),
  a second dictionary of the sinks keyed by their PulseAudio name, and the name of the
  default sink. PulseAudio calls the \<open>_on_...\<close> handlers of \<open>PulseAudioManager\<close>;
  the handlers change the dictionaries and queue calls for the GUI thread with
  \<open>GObject.idle_add\<close>. The model passes the manager explicitly, keeps the queued calls
  and the requests sent to PulseAudio in two lists, and returns every exception of the
  Python code as a value.
\<close>

subsection \<open>Python values\<close>

datatype error = KeyError | IndexError | AttributeError | ZeroDivisionError

text \<open>
  The fields of the ctypes structures that are C strings read as Python \<open>bytes\<close>
  (the module calls \<open>.decode("utf-8")\<close> on them); literals such as
  \<open>"audio-volume-change"\<close> are \<open>str\<close>. Both are lists of characters here; a
  \<open>str\<close> is held as its UTF-8 encoding, so that \<open>decode\<close> keeps the characters. The
  server's strings are taken to be valid UTF-8: \<open>decode\<close> does not fail.
\<close>

type_synonym bytes = string
type_synonym str = string

definition decode :: "bytes \<Rightarrow> str" where
  "decode b = b"

text \<open>
  A value whose Python type matters: \<open>==\<close> between a \<open>bytes\<close> and a \<open>str\<close> is
  \<open>False\<close> whatever they hold, which is what the equality of this datatype says.
\<close>

datatype pyval = PyNone | PyBytes bytes | PyStr str

text \<open>\<open>str(x)\<close>, as \<open>"{}".format(x)\<close> prints a value (a \<open>bytes\<close> in its \<open>repr\<close>, here
  without the escapes of unprintable characters).\<close>

fun format_value :: "pyval \<Rightarrow> str" where
  "format_value PyNone = ''None''"
| "format_value (PyStr s) = s"
| "format_value (PyBytes b) = ''b'' @ [CHR 0x27] @ b @ [CHR 0x27]"

text \<open>
  An instance attribute that may not have been assigned yet: \<open>None\<close> is "no such
  attribute" (reading it raises \<open>AttributeError\<close>), \<open>Some v\<close> is the attribute with
  value \<open>v\<close> (which may be Python's \<open>None\<close>, \<open>PyNone\<close>).
\<close>

type_synonym 'a attr = "'a option"

definition getattr :: "'a attr \<Rightarrow> error + 'a" where
  "getattr a = (case a of None \<Rightarrow> Inl AttributeError | Some v \<Rightarrow> Inr v)"

subsection \<open>Dictionaries\<close>

text \<open>
  A Python \<open>dict\<close> keeps its keys in insertion order (\<open>get_first_sink\<close> reads the
  first key), so a dictionary is an association list: \<open>d[k] = v\<close> overwrites in place
  or appends, \<open>del d[k]\<close> and \<open>d.pop(k)\<close> raise \<open>KeyError\<close> on a missing key.
\<close>

type_synonym ('k, 'v) dict = "('k \<times> 'v) list"

definition dict_keys :: "('k, 'v) dict \<Rightarrow> 'k list" where
  "dict_keys d = map fst d"

definition dict_contains :: "'k \<Rightarrow> ('k, 'v) dict \<Rightarrow> bool" where
  "dict_contains k d = (k \<in> set (dict_keys d))"

definition dict_getitem :: "('k, 'v) dict \<Rightarrow> 'k \<Rightarrow> error + 'v" where
  "dict_getitem d k = (case map_of d k of None \<Rightarrow> Inl KeyError | Some v \<Rightarrow> Inr v)"

primrec dict_setitem :: "('k, 'v) dict \<Rightarrow> 'k \<Rightarrow> 'v \<Rightarrow> ('k, 'v) dict" where
  "dict_setitem [] k v = [(k, v)]"
| "dict_setitem (p # ps) k v = (if fst p = k then (k, v) # ps else p # dict_setitem ps k v)"

definition dict_remove :: "'k \<Rightarrow> ('k, 'v) dict \<Rightarrow> ('k, 'v) dict" where
  "dict_remove k d = filter (\<lambda>p. fst p \<noteq> k) d"

definition dict_delitem :: "('k, 'v) dict \<Rightarrow> 'k \<Rightarrow> error + ('k, 'v) dict" where
  "dict_delitem d k = (if dict_contains k d then Inr (dict_remove k d) else Inl KeyError)"

definition dict_pop :: "('k, 'v) dict \<Rightarrow> 'k \<Rightarrow> error + ('v \<times> ('k, 'v) dict)" where
  "dict_pop d k = (case map_of d k of None \<Rightarrow> Inl KeyError
                   | Some v \<Rightarrow> Inr (v, dict_remove k d))"

text \<open>\<open>xs[0]\<close> on a Python list.\<close>

definition list_first :: "'a list \<Rightarrow> error + 'a" where
  "list_first xs = (case xs of [] \<Rightarrow> Inl IndexError | x # _ \<Rightarrow> Inr x)"

subsection \<open>The structures of libpulse\<close>

text \<open>
  \<open>pa_cvolume\<close>: a channel count (\<open>uint8_t\<close>) and an array of 32 volumes
  (\<open>pa_volume_t\<close>, an \<open>uint32_t\<close>). The array is a function on the slot numbers; a
  ctypes array has exactly its 32 slots, and an index from 32 on raises \<open>IndexError\<close>.
\<close>

record pa_cvolume =
  cv_channels :: "8 word"
  cv_values :: "nat \<Rightarrow> 32 word"

definition array_setitem :: "(nat \<Rightarrow> 32 word) \<Rightarrow> nat \<Rightarrow> 32 word \<Rightarrow> error + (nat \<Rightarrow> 32 word)" where
  "array_setitem vs i v = (if i < 32 then Inr (vs(i := v)) else Inl IndexError)"

text \<open>
  \<open>cvolume_from_volume(volume, channels)\<close>. Both arguments are Python integers; ctypes
  stores an integer into a C field by truncating it to the width of the field. The
  loop \<open>for i in range(0, channels)\<close> stops at the first assignment that raises.
\<close>

fun set_values :: "int \<Rightarrow> nat list \<Rightarrow> (nat \<Rightarrow> 32 word) \<Rightarrow> error + (nat \<Rightarrow> 32 word)" where
  "set_values volume [] vs = Inr vs"
| "set_values volume (i # is) vs =
     (case array_setitem vs i (word_of_int volume) of
        Inl e \<Rightarrow> Inl e
      | Inr vs' \<Rightarrow> set_values volume is vs')"

definition cvolume_from_volume :: "int \<Rightarrow> int \<Rightarrow> error + pa_cvolume" where
  "cvolume_from_volume volume channels =
     (let cvolume = \<lparr>cv_channels = word_of_int channels, cv_values = (\<lambda>_. 0)\<rparr>
      in case set_values volume [0..<nat channels] (cv_values cvolume) of
           Inl e \<Rightarrow> Inl e
         | Inr vs \<Rightarrow> Inr (cvolume\<lparr>cv_values := vs\<rparr>))"

text \<open>The per-channel vector a \<open>pa_cvolume\<close> declares: its first \<open>channels\<close> slots.\<close>

definition cvolume_vector :: "pa_cvolume \<Rightarrow> 32 word list" where
  "cvolume_vector cv = map (cv_values cv) [0..<unat (cv_channels cv)]"

subsection \<open>The peak of a capture block\<close>

text \<open>
  \<open>_on_stream_read\<close> computes
  \<open>sum([data[i] - 128 for i in range(length)]) / length / 128.0\<close> on the \<open>length\<close>
  bytes of the block. Python's \<open>/\<close> raises \<open>ZeroDivisionError\<close> on 0; the quotient
  is taken in the reals (the values of the claim are exact in binary floating point).
\<close>

definition stream_read_val :: "8 word list \<Rightarrow> error + real" where
  "stream_read_val data =
     (let length = length data;
          total = sum_list (map (\<lambda>i. uint (data ! i) - 128) [0..<length])
      in if length = 0 then Inl ZeroDivisionError
         else Inr (real_of_int total / real length / 128))"

text \<open>The level the specification describes: the mean of the absolute deviations from
  128, divided by 128.\<close>

definition abs_deviation_level :: "8 word list \<Rightarrow> real" where
  "abs_deviation_level data =
     real_of_int (sum_list (map (\<lambda>b. \<bar>uint b - 128\<bar>) data)) / real (length data) / 128"

subsection \<open>Entities\<close>

text \<open>
  The structures PulseAudio passes to the handlers, with the fields the module reads.
  \<open>mute\<close> is a C \<open>int\<close>; \<open>sink\<close> and \<open>client\<close> are indices.
\<close>

record pa_sink_info =
  sink_info_name :: bytes
  sink_info_description :: bytes
  sink_info_volume :: pa_cvolume
  sink_info_mute :: int

record pa_sink_input_info =
  input_info_name :: bytes
  input_info_driver :: bytes
  input_info_sink :: nat
  input_info_client :: nat
  input_info_volume :: pa_cvolume
  input_info_mute :: int

record pa_client_info =
  client_info_name :: bytes

text \<open>The property list of an entity, as \<open>_dict_from_proplist\<close> returns it.\<close>

type_synonym props = "bytes \<rightharpoonup> bytes"

text \<open>The calls queued for the GUI thread with \<open>GObject.idle_add\<close>, by callback.\<close>

datatype idle_call =
    Slider_count_changed
  | Update_values int bool
  | Update_sink_scale nat int bool
  | Update_sink_input_scale nat int bool
  | Update_sink_peak nat real
  | Update_sink_input_peak nat real

text \<open>The requests \<open>PulseAudio\<close> sends to the server.\<close>

datatype pa_request =
    Set_sink_volume nat pa_cvolume
  | Set_sink_mute nat int
  | Set_sink_input_volume nat pa_cvolume
  | Set_sink_input_mute nat int

text \<open>
  \<open>AbstractMonitorableSink\<close>: the attributes \<open>__init__\<close> assigns (the capture
  stream apart). \<open>_icon_name\<close> is read inside a \<open>try\<close> for \<open>AttributeError\<close> and
  is kept as an attribute that may be missing.
\<close>

record abstract_monitorable_sink =
  idx :: nat
  volume :: int
  channels :: nat
  mute :: bool
  icon_name_attr :: "pyval attr"
  name_attr :: str
  is_sink_input :: bool

text \<open>\<open>Sink\<close> adds \<open>_sink_name\<close>; \<open>SinkInput\<close> adds \<open>_sink_idx\<close> and the
  attributes its \<open>update\<close> assigns first: \<open>client\<close>, \<open>app_name\<close>, \<open>media_name\<close>.\<close>

record sink = abstract_monitorable_sink +
  sink_name :: bytes

record sink_input = abstract_monitorable_sink +
  sink_idx_attr :: nat
  client :: "nat attr"
  app_name :: "pyval attr"
  media_name :: "pyval attr"

record client_obj =
  client_idx :: nat
  client_name :: str
  client_icon_name :: pyval

text \<open>
  \<open>PulseAudioManager\<close>. A \<open>Sink\<close> object is held by two dictionaries at once, so
  the sinks live in a store (\<open>sink_objects\<close>, a reference is a position in it) and
  the two dictionaries hold references. Clients and sink inputs are held by one
  dictionary each and are kept there by value.
\<close>

record pulse_audio_manager =
  pa_clients :: "(nat, client_obj) dict"
  pa_sinks :: "(nat, nat) dict"
  pa_sinks_by_name :: "(bytes, nat) dict"
  default_sink :: "bytes option"
  pa_sink_inputs :: "(nat, sink_input) dict"
  sink_objects :: "sink list"
  idle_calls :: "idle_call list"
  pa_requests :: "pa_request list"

definition init_manager :: pulse_audio_manager where
  "init_manager = \<lparr>pa_clients = [], pa_sinks = [], pa_sinks_by_name = [],
     default_sink = None, pa_sink_inputs = [], sink_objects = [], idle_calls = [],
     pa_requests = []\<rparr>"

text \<open>
  \<open>_on_remove_pa_sink\<close> reads \<open>self._pa_sink_index_by_name\<close>. No statement of the
  module assigns an attribute of that name, so it is an attribute that is missing in
  every manager.
\<close>

definition pa_sink_index_by_name :: "pulse_audio_manager \<Rightarrow> (bytes, nat) dict attr" where
  "pa_sink_index_by_name mgr = None"

subsection \<open>The methods of the entities\<close>

definition ams_init :: "nat \<Rightarrow> bool \<Rightarrow> 'a \<Rightarrow> 'a abstract_monitorable_sink_scheme" where
  "ams_init i si m = \<lparr>idx = i, volume = 0, channels = 0, mute = False,
     icon_name_attr = Some PyNone, name_attr = [], is_sink_input = si, \<dots> = m\<rparr>"

text \<open>\<open>AbstractMonitorableSink.update\<close> reads \<open>struct.volume\<close> and \<open>struct.mute\<close>.\<close>

definition ams_update ::
  "pa_cvolume \<Rightarrow> int \<Rightarrow> 'a abstract_monitorable_sink_scheme \<Rightarrow> 'a abstract_monitorable_sink_scheme" where
  "ams_update cv m self =
     self\<lparr>volume := uint (cv_values cv 0), channels := unat (cv_channels cv), mute := (m \<noteq> 0)\<rparr>"

definition on_stream_read ::
  "'a abstract_monitorable_sink_scheme \<Rightarrow> 8 word list \<Rightarrow> error + idle_call" where
  "on_stream_read self data =
     (case stream_read_val data of
        Inl e \<Rightarrow> Inl e
      | Inr val \<Rightarrow>
          if is_sink_input self then Inr (Update_sink_input_peak (idx self) val)
          else Inr (Update_sink_peak (idx self) val))"

definition is_main_sink :: "pulse_audio_manager \<Rightarrow> bytes \<Rightarrow> bool" where
  "is_main_sink mgr name = (Some name = default_sink mgr)"

text \<open>\<open>Sink.update\<close> returns the object and the calls it queues (\<open>props\<close> is not read).\<close>

definition Sink_update :: "pulse_audio_manager \<Rightarrow> pa_sink_info \<Rightarrow> sink \<Rightarrow> sink \<times> idle_call list" where
  "Sink_update mgr struct self =
     (let self = ams_update (sink_info_volume struct) (sink_info_mute struct) self;
          self = self\<lparr>name_attr := decode (sink_info_description struct),
                      sink_name := sink_info_name struct,
                      icon_name_attr := Some (PyStr ''audio-card''),
                      volume := uint (cv_values (sink_info_volume struct) 0),
                      channels := unat (cv_channels (sink_info_volume struct)),
                      mute := (sink_info_mute struct \<noteq> 0)\<rparr>
      in (self,
          (if is_main_sink mgr (sink_name self) then [Update_values (volume self) (mute self)]
           else [])
          @ [Update_sink_scale (idx self) (volume self) (mute self)]))"

text \<open>\<open>Sink(pa_mgr, idx, struct, props)\<close>: \<open>_sink_name\<close> is first assigned by the
  \<open>update\<close> the constructor ends with; the empty name before it is never read.\<close>

definition Sink_init :: "pulse_audio_manager \<Rightarrow> nat \<Rightarrow> pa_sink_info \<Rightarrow> sink \<times> idle_call list" where
  "Sink_init mgr i struct = Sink_update mgr struct (ams_init i False (sink.fields []))"

definition Sink_set_volume :: "int \<Rightarrow> sink \<Rightarrow> error option \<times> sink \<times> pa_request list" where
  "Sink_set_volume v self =
     (let self = self\<lparr>volume := v\<rparr>
      in case cvolume_from_volume v (int (channels self)) of
           Inl e \<Rightarrow> (Some e, self, [])
         | Inr cvolume \<Rightarrow> (None, self, [Set_sink_volume (idx self) cvolume]))"

definition Sink_set_mute :: "bool \<Rightarrow> sink \<Rightarrow> sink \<times> pa_request list" where
  "Sink_set_mute m self =
     (let self = self\<lparr>mute := m\<rparr>
      in (self, [Set_sink_mute (idx self) (if m then 1 else 0)]))"

definition props_get_decoded :: "props \<Rightarrow> bytes \<Rightarrow> pyval" where
  "props_get_decoded ps k = (case ps k of None \<Rightarrow> PyNone | Some b \<Rightarrow> PyStr (decode b))"

definition SinkInput_update ::
  "pa_sink_input_info \<Rightarrow> props \<Rightarrow> sink_input \<Rightarrow> sink_input \<times> idle_call list" where
  "SinkInput_update struct ps self =
     (let self = ams_update (input_info_volume struct) (input_info_mute struct) self;
          icon = (case ps ''media.icon_name'' of
                    None \<Rightarrow> props_get_decoded ps ''application.icon_name''
                  | Some b \<Rightarrow> PyStr (decode b));
          self = self\<lparr>sink_idx_attr := input_info_sink struct,
                      client := Some (input_info_client struct),
                      app_name := Some (props_get_decoded ps ''application.name''),
                      media_name := Some (props_get_decoded ps ''media.name''),
                      icon_name_attr := Some icon\<rparr>
      in (self, [Update_sink_input_scale (idx self) (volume self) (mute self)]))"

definition SinkInput_init ::
  "nat \<Rightarrow> pa_sink_input_info \<Rightarrow> props \<Rightarrow> sink_input \<times> idle_call list" where
  "SinkInput_init i struct ps =
     SinkInput_update struct ps
       (ams_init i True (sink_input.fields (input_info_sink struct) None None None))"

definition SinkInput_set_volume ::
  "int \<Rightarrow> sink_input \<Rightarrow> error option \<times> sink_input \<times> pa_request list" where
  "SinkInput_set_volume v self =
     (let self = self\<lparr>volume := v\<rparr>
      in case cvolume_from_volume v (int (channels self)) of
           Inl e \<Rightarrow> (Some e, self, [])
         | Inr cvolume \<Rightarrow> (None, self, [Set_sink_input_volume (idx self) cvolume]))"

definition Client_init :: "nat \<Rightarrow> client_obj" where
  "Client_init i = \<lparr>client_idx = i, client_name = [], client_icon_name = PyNone\<rparr>"

definition Client_update :: "pa_client_info \<Rightarrow> props \<Rightarrow> client_obj \<Rightarrow> client_obj" where
  "Client_update struct ps self =
     self\<lparr>client_name := decode (client_info_name struct),
          client_icon_name :=
            PyStr (decode (case ps ''application.icon_name'' of
                             None \<Rightarrow> ''multimedia-volume-control''
                           | Some b \<Rightarrow> b))\<rparr>"

definition get_pa_client :: "pulse_audio_manager \<Rightarrow> nat \<Rightarrow> error + client_obj" where
  "get_pa_client mgr c = dict_getitem (pa_clients mgr) c"

definition SinkInput_get_client :: "pulse_audio_manager \<Rightarrow> sink_input \<Rightarrow> error + client_obj" where
  "SinkInput_get_client mgr self =
     (case getattr (client self) of Inl e \<Rightarrow> Inl e | Inr c \<Rightarrow> get_pa_client mgr c)"

text \<open>The properties \<open>SinkInput.icon_name\<close> and \<open>SinkInput.name\<close>: the \<open>try\<close> body
  first, the handler of \<open>AttributeError\<close> when the body raised it.\<close>

definition SinkInput_icon_name :: "pulse_audio_manager \<Rightarrow> sink_input \<Rightarrow> error + pyval" where
  "SinkInput_icon_name mgr self =
     (case getattr (icon_name_attr self) of
        Inr v \<Rightarrow> Inr v
      | Inl AttributeError \<Rightarrow>
          (case SinkInput_get_client mgr self of
             Inl e \<Rightarrow> Inl e
           | Inr c \<Rightarrow> Inr (client_icon_name c))
      | Inl e \<Rightarrow> Inl e)"

definition format_name :: "sink_input \<Rightarrow> error + pyval" where
  "format_name self =
     (case getattr (app_name self) of
        Inl e \<Rightarrow> Inl e
      | Inr a \<Rightarrow>
          (case getattr (media_name self) of
             Inl e \<Rightarrow> Inl e
           | Inr m \<Rightarrow> Inr (PyStr (format_value a @ '': '' @ format_value m))))"

definition SinkInput_name :: "pulse_audio_manager \<Rightarrow> sink_input \<Rightarrow> error + pyval" where
  "SinkInput_name mgr self =
     (case format_name self of
        Inr v \<Rightarrow> Inr v
      | Inl AttributeError \<Rightarrow>
          (case getattr (app_name self) of
             Inr v \<Rightarrow> Inr v
           | Inl AttributeError \<Rightarrow>
               (case SinkInput_get_client mgr self of
                  Inl e \<Rightarrow> Inl e
                | Inr c \<Rightarrow> Inr (PyStr (client_name c)))
           | Inl e \<Rightarrow> Inl e)
      | Inl e \<Rightarrow> Inl e)"

subsection \<open>The manager: accessors and commands\<close>

text \<open>\<open>get_first_sink\<close>: the \<open>try\<close> covers both lines and handles \<open>IndexError\<close> only.
  The result is a reference to a \<open>Sink\<close> object, or Python's \<open>None\<close>.\<close>

definition get_first_sink :: "pulse_audio_manager \<Rightarrow> error + nat option" where
  "get_first_sink mgr =
     (case (case list_first (dict_keys (pa_sinks mgr)) of
              Inl e \<Rightarrow> Inl e
            | Inr first_key \<Rightarrow> dict_getitem (pa_sinks mgr) first_key) of
        Inr r \<Rightarrow> Inr (Some r)
      | Inl IndexError \<Rightarrow> Inr None
      | Inl e \<Rightarrow> Inl e)"

definition get_main_sink :: "pulse_audio_manager \<Rightarrow> error + nat option" where
  "get_main_sink mgr =
     (case default_sink mgr of
        None \<Rightarrow> get_first_sink mgr
      | Some name \<Rightarrow>
          (case dict_getitem (pa_sinks_by_name mgr) name of
             Inl e \<Rightarrow> Inl e
           | Inr r \<Rightarrow> Inr (Some r)))"

text \<open>\<open>set_main_volume\<close> and \<open>toggle_main_mute\<close> call a method on what
  \<open>get_main_sink\<close> returned; on \<open>None\<close> that is an \<open>AttributeError\<close>. The result is
  the exception raised, if any, and the manager as the call left it.\<close>

definition set_main_volume :: "int \<Rightarrow> pulse_audio_manager \<Rightarrow> error option \<times> pulse_audio_manager" where
  "set_main_volume v mgr =
     (case get_main_sink mgr of
        Inl e \<Rightarrow> (Some e, mgr)
      | Inr None \<Rightarrow> (Some AttributeError, mgr)
      | Inr (Some r) \<Rightarrow>
          (case Sink_set_volume v (sink_objects mgr ! r) of
             (err, sink, reqs) \<Rightarrow>
               (err, mgr\<lparr>sink_objects := (sink_objects mgr)[r := sink],
                         pa_requests := pa_requests mgr @ reqs\<rparr>)))"

definition toggle_main_mute :: "pulse_audio_manager \<Rightarrow> error option \<times> pulse_audio_manager" where
  "toggle_main_mute mgr =
     (case get_main_sink mgr of
        Inl e \<Rightarrow> (Some e, mgr)
      | Inr None \<Rightarrow> (Some AttributeError, mgr)
      | Inr (Some r) \<Rightarrow>
          (case Sink_set_mute (\<not> mute (sink_objects mgr ! r)) (sink_objects mgr ! r) of
             (sink, reqs) \<Rightarrow>
               (None, mgr\<lparr>sink_objects := (sink_objects mgr)[r := sink],
                          pa_requests := pa_requests mgr @ reqs\<rparr>)))"

subsection \<open>The manager: the callbacks PulseAudio calls\<close>

definition on_new_pa_client ::
  "nat \<Rightarrow> pa_client_info \<Rightarrow> props \<Rightarrow> pulse_audio_manager \<Rightarrow> error option \<times> pulse_audio_manager" where
  "on_new_pa_client index struct ps mgr =
     (let mgr = (if \<not> dict_contains index (pa_clients mgr)
                 then mgr\<lparr>pa_clients := dict_setitem (pa_clients mgr) index (Client_init index)\<rparr>
                 else mgr)
      in case dict_getitem (pa_clients mgr) index of
           Inl e \<Rightarrow> (Some e, mgr)
         | Inr c \<Rightarrow>
             (None, mgr\<lparr>pa_clients :=
                          dict_setitem (pa_clients mgr) index (Client_update struct ps c)\<rparr>))"

definition on_remove_pa_client :: "nat \<Rightarrow> pulse_audio_manager \<Rightarrow> error option \<times> pulse_audio_manager" where
  "on_remove_pa_client index mgr =
     (if dict_contains index (pa_clients mgr) then
        (case dict_delitem (pa_clients mgr) index of
           Inl e \<Rightarrow> (Some e, mgr)
         | Inr d \<Rightarrow> (None, mgr\<lparr>pa_clients := d\<rparr>))
      else (None, mgr))"

text \<open>
  \<open>_on_new_pa_sink\<close>. A new \<open>Sink\<close> is allocated at the end of the store. For a known
  index the object is updated in place (the store changes, both dictionaries see it),
  then its old name is deleted from the name dictionary and its new name inserted.
\<close>

definition on_new_pa_sink ::
  "nat \<Rightarrow> pa_sink_info \<Rightarrow> pulse_audio_manager \<Rightarrow> error option \<times> pulse_audio_manager" where
  "on_new_pa_sink index struct mgr =
     (if \<not> dict_contains index (pa_sinks mgr) then
        (case Sink_init mgr index struct of
           (sink, calls) \<Rightarrow>
             (let r = length (sink_objects mgr)
              in (None,
                  mgr\<lparr>sink_objects := sink_objects mgr @ [sink],
                      pa_sinks := dict_setitem (pa_sinks mgr) index r,
                      pa_sinks_by_name := dict_setitem (pa_sinks_by_name mgr) (sink_name sink) r,
                      idle_calls := idle_calls mgr @ calls @ [Slider_count_changed]\<rparr>)))
      else
        (case dict_getitem (pa_sinks mgr) index of
           Inl e \<Rightarrow> (Some e, mgr)
         | Inr r \<Rightarrow>
             (let old_name = sink_name (sink_objects mgr ! r)
              in case Sink_update mgr struct (sink_objects mgr ! r) of
                   (sink, calls) \<Rightarrow>
                     (let mgr = mgr\<lparr>sink_objects := (sink_objects mgr)[r := sink],
                                     idle_calls := idle_calls mgr @ calls\<rparr>
                      in case dict_delitem (pa_sinks_by_name mgr) old_name of
                           Inl e \<Rightarrow> (Some e, mgr)
                         | Inr d \<Rightarrow>
                             (None,
                              mgr\<lparr>pa_sinks_by_name := dict_setitem d (sink_name sink) r\<rparr>)))))"

text \<open>
  \<open>_on_remove_pa_sink\<close>: \<open>pop\<close> without a default, then the \<open>del\<close> on
  \<open>self._pa_sink_index_by_name\<close>, then the queued call. The \<open>del\<close> would change the
  dictionary it was given, which no field of the manager holds.
\<close>

definition on_remove_pa_sink :: "nat \<Rightarrow> pulse_audio_manager \<Rightarrow> error option \<times> pulse_audio_manager" where
  "on_remove_pa_sink index mgr =
     (case dict_pop (pa_sinks mgr) index of
        Inl e \<Rightarrow> (Some e, mgr)
      | Inr (r, d) \<Rightarrow>
          (let mgr = mgr\<lparr>pa_sinks := d\<rparr>
           in case getattr (pa_sink_index_by_name mgr) of
                Inl e \<Rightarrow> (Some e, mgr)
              | Inr by_name \<Rightarrow>
                  (case dict_delitem by_name (sink_name (sink_objects mgr ! r)) of
                     Inl e \<Rightarrow> (Some e, mgr)
                   | Inr _ \<Rightarrow>
                       (None, mgr\<lparr>idle_calls := idle_calls mgr @ [Slider_count_changed]\<rparr>))))"

text \<open>
  \<open>_on_new_pa_sink_input\<close>. \<open>struct.name\<close> is a \<open>bytes\<close> and is compared with a
  \<open>str\<close> literal as it is; \<open>struct.driver\<close> is decoded before the membership test.
\<close>

definition on_new_pa_sink_input ::
  "nat \<Rightarrow> pa_sink_input_info \<Rightarrow> props \<Rightarrow> pulse_audio_manager \<Rightarrow> error option \<times> pulse_audio_manager" where
  "on_new_pa_sink_input index struct ps mgr =
     (if PyBytes (input_info_name struct) = PyStr ''audio-volume-change'' then (None, mgr)
      else if decode (input_info_driver struct) \<notin> set [''protocol-native.c'', ''PipeWire'']
      then (None, mgr)
      else if \<not> dict_contains index (pa_sink_inputs mgr) then
        (case SinkInput_init index struct ps of
           (si, calls) \<Rightarrow>
             (None,
              mgr\<lparr>pa_sink_inputs := dict_setitem (pa_sink_inputs mgr) index si,
                  idle_calls := idle_calls mgr @ calls @ [Slider_count_changed]\<rparr>))
      else
        (case dict_getitem (pa_sink_inputs mgr) index of
           Inl e \<Rightarrow> (Some e, mgr)
         | Inr si \<Rightarrow>
             (case SinkInput_update struct ps si of
                (si', calls) \<Rightarrow>
                  (None,
                   mgr\<lparr>pa_sink_inputs := dict_setitem (pa_sink_inputs mgr) index si',
                       idle_calls := idle_calls mgr @ calls\<rparr>))))"

definition on_remove_pa_sink_input ::
  "nat \<Rightarrow> pulse_audio_manager \<Rightarrow> error option \<times> pulse_audio_manager" where
  "on_remove_pa_sink_input index mgr =
     (if dict_contains index (pa_sink_inputs mgr) then
        (case dict_delitem (pa_sink_inputs mgr) index of
           Inl e \<Rightarrow> (Some e, mgr)
         | Inr d \<Rightarrow>
             (None, mgr\<lparr>pa_sink_inputs := d,
                        idle_calls := idle_calls mgr @ [Slider_count_changed]\<rparr>))
      else (None, mgr))"

text \<open>\<open>_on_default_sink(name)\<close>: the name of the server information, a \<open>bytes\<close>, or
  \<open>None\<close> for a null pointer.\<close>

definition on_default_sink :: "bytes option \<Rightarrow> pulse_audio_manager \<Rightarrow> error option \<times> pulse_audio_manager" where
  "on_default_sink name mgr = (None, mgr\<lparr>default_sink := name\<rparr>)"

subsection \<open>Runs of the manager\<close>

text \<open>
  What happens to a manager: a callback of PulseAudio, or a command of the GUI. An
  exception raised in a callback leaves the manager as it was when it was raised, and
  the next callback is called on that manager.
\<close>

datatype event =
    New_client nat pa_client_info props
  | Remove_client nat
  | New_sink nat pa_sink_info
  | Remove_sink nat
  | New_sink_input nat pa_sink_input_info props
  | Remove_sink_input nat
  | Default_sink "bytes option"
  | Set_main_volume int
  | Toggle_main_mute

fun handle :: "event \<Rightarrow> pulse_audio_manager \<Rightarrow> error option \<times> pulse_audio_manager" where
  "handle (New_client i struct ps) mgr = on_new_pa_client i struct ps mgr"
| "handle (Remove_client i) mgr = on_remove_pa_client i mgr"
| "handle (New_sink i struct) mgr = on_new_pa_sink i struct mgr"
| "handle (Remove_sink i) mgr = on_remove_pa_sink i mgr"
| "handle (New_sink_input i struct ps) mgr = on_new_pa_sink_input i struct ps mgr"
| "handle (Remove_sink_input i) mgr = on_remove_pa_sink_input i mgr"
| "handle (Default_sink name) mgr = on_default_sink name mgr"
| "handle (Set_main_volume v) mgr = set_main_volume v mgr"
| "handle Toggle_main_mute mgr = toggle_main_mute mgr"

fun run_from :: "pulse_audio_manager \<Rightarrow> event list \<Rightarrow> pulse_audio_manager" where
  "run_from mgr [] = mgr"
| "run_from mgr (e # es) = run_from (snd (handle e mgr)) es"

definition run :: "event list \<Rightarrow> pulse_audio_manager" where
  "run es = run_from init_manager es"

subsection \<open>Structures for the examples\<close>

text \<open>A \<open>pa_cvolume\<close> of \<open>n\<close> channels, all at the volume \<open>v\<close>, the other slots 0.\<close>

definition level_cvolume :: "nat \<Rightarrow> int \<Rightarrow> pa_cvolume" where
  "level_cvolume n v =
     \<lparr>cv_channels = word_of_nat n, cv_values = (\<lambda>i. if i < n then word_of_int v else 0)\<rparr>"

text \<open>An unmuted sink of the given name, channel count and volume, and an unmuted sink
  input of the given name, driver, client, channel count and volume on sink 0.\<close>

definition example_sink_info :: "bytes \<Rightarrow> nat \<Rightarrow> int \<Rightarrow> pa_sink_info" where
  "example_sink_info name n v =
     \<lparr>sink_info_name = name, sink_info_description = ''Built-in Audio'',
      sink_info_volume = level_cvolume n v, sink_info_mute = 0\<rparr>"

definition example_input_info :: "bytes \<Rightarrow> bytes \<Rightarrow> nat \<Rightarrow> nat \<Rightarrow> int \<Rightarrow> pa_sink_input_info" where
  "example_input_info name driver c n v =
     \<lparr>input_info_name = name, input_info_driver = driver, input_info_sink = 0,
      input_info_client = c, input_info_volume = level_cvolume n v, input_info_mute = 0\<rparr>"

text \<open>Three sinks reported in the order 5, 2, 9; a client and a sink input of that client
  with an empty property list.\<close>

definition example_three_sinks :: "event list" where
  "example_three_sinks =
     [New_sink 5 (example_sink_info ''a'' 2 50), New_sink 2 (example_sink_info ''b'' 2 50),
      New_sink 9 (example_sink_info ''c'' 2 50)]"

definition example_stream_events :: "event list" where
  "example_stream_events =
     [New_client 7 \<lparr>client_info_name = ''Firefox''\<rparr> [''application.icon_name'' \<mapsto> ''firefox''],
      New_sink_input 4 (example_input_info ''Playback'' ''protocol-native.c'' 7 2 50) Map.empty]"

subsection \<open>An invariant of the sink dictionary\<close>

text \<open>Every reference of the index dictionary points into the store, at a \<open>Sink\<close>
  whose \<open>idx\<close> is the key.\<close>

definition sinks_indexed :: "pulse_audio_manager \<Rightarrow> bool" where
  "sinks_indexed mgr =
     list_all (\<lambda>p. snd p < length (sink_objects mgr) \<and> idx (sink_objects mgr ! snd p) = fst p)
       (pa_sinks mgr)"

subsection \<open>The two sink dictionaries together\<close>

text \<open>
  What the dictionary by name has to hold: for every live sink (every entry of the
  index dictionary) its current name with its object. The dictionaries are in step
  when the dictionary by name holds exactly these entries, each key once.
\<close>

definition name_entries :: "pulse_audio_manager \<Rightarrow> (bytes \<times> nat) set" where
  "name_entries mgr = (\<lambda>p. (sink_name (sink_objects mgr ! snd p), snd p)) ` set (pa_sinks mgr)"

definition names_in_sync :: "pulse_audio_manager \<Rightarrow> bool" where
  "names_in_sync mgr =
     (sinks_indexed mgr \<and> distinct (map fst (pa_sinks mgr))
      \<and> distinct (map fst (pa_sinks_by_name mgr))
      \<and> set (pa_sinks_by_name mgr) = name_entries mgr)"

text \<open>A \<open>SinkInput\<close> on which \<open>update\<close> has run has the attributes the two
  properties read.\<close>

definition attrs_assigned :: "sink_input \<Rightarrow> bool" where
  "attrs_assigned si =
     (client si \<noteq> None \<and> app_name si \<noteq> None \<and> media_name si \<noteq> None
      \<and> icon_name_attr si \<noteq> None)"

section \<open>Properties\<close>

lemma stream_read_total:
  "sum_list (map (\<lambda>i. uint (data ! i) - 128) [0..<length data])
     = sum_list (map (\<lambda>b. uint b - 128) data)"
proof -
  have "map (\<lambda>i. uint (data ! i) - 128) [0..<length data]
          = map (\<lambda>b. uint b - 128) (map ((!) data) [0..<length data])"
    by simp
  then show ?thesis
    by (simp only: map_nth)
qed

lemma stream_read_val_eq:
  "data \<noteq> [] \<Longrightarrow> stream_read_val data
     = Inr (real_of_int (sum_list (map (\<lambda>b. uint b - 128) data)) / real (length data) / 128)"
  by (simp add: stream_read_val_def Let_def stream_read_total)

lemma sum_dev_replicate:
  "sum_list (map (\<lambda>b. uint b - 128) (replicate n (x :: 8 word))) = int n * (uint x - 128)"
  by (induction n) (simp_all add: algebra_simps)

lemma sum_dev_alternating:
  "sum_list (map (\<lambda>b. uint b - 128) (concat (replicate n [0, 255 :: 8 word]))) = - int n"
  by (induction n) simp_all

lemma length_alternating: "length (concat (replicate n [a, b])) = 2 * n"
  by (induction n) simp_all

lemma sum_dev_abs:
  "\<forall>b \<in> set data. 128 \<le> b \<Longrightarrow>
     sum_list (map (\<lambda>b. \<bar>uint b - 128\<bar>) data) = sum_list (map (\<lambda>b. uint b - 128) (data :: 8 word list))"
proof (induction data)
  case Nil
  then show ?case by simp
next
  case (Cons b data)
  then have "128 \<le> b" by simp
  then have "128 \<le> uint b" by (simp add: word_le_def)
  with Cons show ?case by simp
qed

lemma sum_dev_bounds:
  "\<forall>b \<in> set data. 128 \<le> b \<Longrightarrow>
     0 \<le> sum_list (map (\<lambda>b. uint b - 128) (data :: 8 word list)) \<and>
     sum_list (map (\<lambda>b. uint b - 128) data) \<le> 127 * int (length data)"
proof (induction data)
  case Nil
  then show ?case by simp
next
  case (Cons b data)
  then have "128 \<le> b" by simp
  then have lo: "128 \<le> uint b" by (simp add: word_le_def)
  have "uint b < 2 ^ 8" using uint_bounded [of b] by simp
  then have hi: "uint b \<le> 255" by simp
  from Cons lo hi show ?case by simp
qed

lemma on_stream_read_queues:
  "data \<noteq> [] \<Longrightarrow>
     on_stream_read self data
       = Inr ((if is_sink_input self then Update_sink_input_peak else Update_sink_peak) (idx self)
                (real_of_int (sum_list (map (\<lambda>b. uint b - 128) data))
                   / real (length data) / 128))"
  by (simp add: on_stream_read_def stream_read_val_eq)

subsection \<open>C1: the peak of a block\<close>

text \<open>
  C1, as the code has it. For a block of at least one byte the callback computes the
  mean of the signed deviations \<open>sample - 128\<close>, divided by 128; no absolute value
  is taken. When every sample is at least 128 (the range the comment in the code gives
  for the samples) this is the mean absolute deviation over 128 and lies between 0 and
  127/128. A block of 128s gives 0, a block of 255s gives 127/128, a block of 0s gives
  -1, and a block alternating 0 and 255 gives -1/256.
\<close>

theorem peak_is_signed_mean:
  assumes "data \<noteq> []" and "0 < n"
  shows "stream_read_val data
           = Inr (real_of_int (sum_list (map (\<lambda>b. uint b - 128) data)) / real (length data) / 128)
       \<and> ((\<forall>b \<in> set data. 128 \<le> b) \<longrightarrow>
            stream_read_val data = Inr (abs_deviation_level data)
            \<and> 0 \<le> abs_deviation_level data \<and> abs_deviation_level data \<le> 127 / 128)
       \<and> stream_read_val (replicate n 128) = Inr 0
       \<and> stream_read_val (replicate n 255) = Inr (127 / 128)
       \<and> stream_read_val (replicate n 0) = Inr (- 1)
       \<and> stream_read_val (concat (replicate n [0, 255])) = Inr (- 1 / 256)"
proof -
  have a: "stream_read_val data
           = Inr (real_of_int (sum_list (map (\<lambda>b. uint b - 128) data)) / real (length data) / 128)"
    using assms(1) by (rule stream_read_val_eq)
  have b: "stream_read_val data = Inr (abs_deviation_level data)
            \<and> 0 \<le> abs_deviation_level data \<and> abs_deviation_level data \<le> 127 / 128"
    if h: "\<forall>b \<in> set data. 128 \<le> b"
  proof -
    have eq: "abs_deviation_level data
        = real_of_int (sum_list (map (\<lambda>b. uint b - 128) data)) / real (length data) / 128"
      by (simp add: abs_deviation_level_def sum_dev_abs [OF h])
    have len: "0 < real (length data)" using assms(1) by simp
    from sum_dev_bounds [OF h]
    have ilo: "0 \<le> sum_list (map (\<lambda>b. uint b - 128) data)"
      and ihi: "sum_list (map (\<lambda>b. uint b - 128) data) \<le> 127 * int (length data)"
      by blast+
    have lo: "0 \<le> real_of_int (sum_list (map (\<lambda>b. uint b - 128) data))"
      using ilo by (simp only: of_int_0_le_iff)
    have "real_of_int (sum_list (map (\<lambda>b. uint b - 128) data))
            \<le> real_of_int (127 * int (length data))"
      using ihi by (simp only: of_int_le_iff)
    then have hi: "real_of_int (sum_list (map (\<lambda>b. uint b - 128) data)) \<le> 127 * real (length data)"
      by simp
    from lo len have "0 \<le> abs_deviation_level data"
      by (simp add: eq)
    moreover from hi len have "abs_deviation_level data \<le> 127 / 128"
      by (simp add: eq divide_simps)
    ultimately show ?thesis using a eq by simp
  qed
  have rep: "stream_read_val (replicate n x) = Inr (real_of_int (uint x - 128) / 128)"
    for x :: "8 word"
  proof -
    have nz: "replicate n x \<noteq> []" using assms(2) by simp
    have "stream_read_val (replicate n x)
            = Inr (real_of_int (int n * (uint x - 128)) / real n / 128)"
      by (simp only: stream_read_val_eq [OF nz] sum_dev_replicate length_replicate)
    then show ?thesis using assms(2) by simp
  qed
  have c: "stream_read_val (replicate n 128) = Inr 0"
    by (simp add: rep)
  have d: "stream_read_val (replicate n 255) = Inr (127 / 128)"
    by (simp add: rep)
  have e: "stream_read_val (replicate n 0) = Inr (- 1)"
    by (simp add: rep)
  have nz2: "concat (replicate n [0, 255 :: 8 word]) \<noteq> []"
    using assms(2) by (cases n) simp_all
  have "stream_read_val (concat (replicate n [0, 255]))
          = Inr (real_of_int (- int n) / real (2 * n) / 128)"
    by (simp only: stream_read_val_eq [OF nz2] sum_dev_alternating length_alternating)
  then have f: "stream_read_val (concat (replicate n [0, 255])) = Inr (- 1 / 256)"
    using assms(2) by simp
  from a b c d e f show ?thesis by blast
qed

text \<open>The theorem at the block 128, 200, 255 and at two repetitions.\<close>

theorem peak_is_signed_mean_witness:
  "stream_read_val [128, 200, 255] = Inr (199 / 384)
   \<and> stream_read_val [128, 200, 255] = Inr (abs_deviation_level [128, 200, 255])
   \<and> stream_read_val (replicate 2 255) = Inr (127 / 128)
   \<and> stream_read_val (concat (replicate 2 [0, 255])) = Inr (- 1 / 256)"
  using peak_is_signed_mean [of "[128, 200, 255]" 2]
  by (simp add: abs_deviation_level_def)

text \<open>
  C1 as stated fails: on the block 0, 255 the mean absolute deviation over 128 is
  255/256 and the claim gives 1, the code computes -1/256; on a block of 0s it computes
  -1, and on a block of 255s 127/128, where the claim gives 1.
\<close>

theorem peak_not_absolute_mean:
  "stream_read_val [0, 255] = Inr (- 1 / 256) \<and> abs_deviation_level [0, 255] = 255 / 256
   \<and> stream_read_val [0, 255] \<noteq> Inr 1
   \<and> stream_read_val [0, 0] = Inr (- 1) \<and> stream_read_val [0, 0] \<noteq> Inr 1
   \<and> stream_read_val [255, 255] = Inr (127 / 128) \<and> stream_read_val [255, 255] \<noteq> Inr 1"
  by (simp add: stream_read_val_def abs_deviation_level_def)

lemma set_values_in_range:
  "n \<le> 32 \<Longrightarrow> set_values v [k..<n] vs
     = Inr (\<lambda>i. if k \<le> i \<and> i < n then word_of_int v else vs i)"
proof (induction "n - k" arbitrary: k vs)
  case 0
  then show ?case by (auto simp: fun_eq_iff)
next
  case (Suc d)
  then have lt: "k < n" and d: "d = n - Suc k" by linarith+
  from lt have up: "[k..<n] = k # [Suc k..<n]" by (rule upt_conv_Cons)
  from lt Suc.prems have k32: "k < 32" by simp
  have "set_values v [k..<n] vs = set_values v [Suc k..<n] (vs(k := word_of_int v))"
    using k32 by (simp add: up array_setitem_def)
  also have "\<dots> = Inr (\<lambda>i. if Suc k \<le> i \<and> i < n then word_of_int v
                            else (vs(k := word_of_int v)) i)"
    using Suc.hyps(1) [OF d Suc.prems] .
  also have "(\<lambda>i. if Suc k \<le> i \<and> i < n then word_of_int v else (vs(k := word_of_int v)) i)
               = (\<lambda>i. if k \<le> i \<and> i < n then word_of_int v else vs i)"
    using lt by (auto simp: fun_eq_iff)
  finally show ?case .
qed

lemma set_values_out_of_range:
  "32 < n \<Longrightarrow> k \<le> 32 \<Longrightarrow> set_values v [k..<n] vs = Inl IndexError"
proof (induction "32 - k" arbitrary: k vs)
  case 0
  then have "k = 32" by simp
  with 0 have "[k..<n] = 32 # [33..<n]" by (simp add: upt_conv_Cons)
  then show ?case by (simp add: array_setitem_def)
next
  case (Suc d)
  then have lt: "k < 32" and d: "d = 32 - Suc k" by linarith+
  with Suc.prems have up: "[k..<n] = k # [Suc k..<n]" by (simp add: upt_conv_Cons)
  have "set_values v [k..<n] vs = set_values v [Suc k..<n] (vs(k := word_of_int v))"
    using lt by (simp add: up array_setitem_def)
  also have "\<dots> = Inl IndexError"
    using Suc.hyps(1) [OF d Suc.prems(1)] lt by simp
  finally show ?case .
qed

lemma cvolume_from_volume_ok:
  "c \<le> 32 \<Longrightarrow> cvolume_from_volume v c
     = Inr \<lparr>cv_channels = word_of_int c,
            cv_values = (\<lambda>i. if i < nat c then word_of_int v else 0)\<rparr>"
proof -
  assume "c \<le> 32"
  then have "nat c \<le> 32" by simp
  from set_values_in_range [OF this, of v 0 "\<lambda>_. 0"]
  show ?thesis by (simp add: cvolume_from_volume_def)
qed

lemma cvolume_from_volume_raises:
  "32 < c \<Longrightarrow> cvolume_from_volume v c = Inl IndexError"
proof -
  assume "32 < c"
  then have "32 < nat c" by simp
  from set_values_out_of_range [OF this, of 0 v "\<lambda>_. 0"]
  show ?thesis by (simp add: cvolume_from_volume_def)
qed

lemma uint_volume: "0 \<le> v \<Longrightarrow> v < 2 ^ 32 \<Longrightarrow> uint (word_of_int v :: 32 word) = v"
  by (simp add: uint_word_of_int_eq take_bit_int_eq_self)

subsection \<open>C9: the 32 slots of the volume array\<close>

text \<open>
  C9, as the code has it. \<open>cvolume_from_volume\<close> writes into an array of 32 slots of
  type \<open>uint32_t\<close>. For every channel count up to 32 no write is out of range, and the
  result has the first \<open>channels\<close> slots at the volume truncated to 32 bits and the
  other slots at 0; when the volume fits an \<open>uint32_t\<close> (\<open>0 \<le> v < 2 ^ 32\<close>) the
  first \<open>channels\<close> slots read as the volume itself. For every channel count above 32,
  33 for one, the write to slot 32 raises \<open>IndexError\<close>.
\<close>

theorem cvolume_from_volume_bounds:
  "(c \<le> 32 \<longrightarrow>
      cvolume_from_volume v c
        = Inr \<lparr>cv_channels = word_of_int c,
               cv_values = (\<lambda>i. if i < nat c then word_of_int v else 0)\<rparr>)
   \<and> (c \<le> 32 \<and> 0 \<le> v \<and> v < 2 ^ 32 \<longrightarrow>
        (\<exists>cv. cvolume_from_volume v c = Inr cv
              \<and> (\<forall>i. uint (cv_values cv i) = (if i < nat c then v else 0))))
   \<and> (32 < c \<longrightarrow> cvolume_from_volume v c = Inl IndexError)
   \<and> cvolume_from_volume v 33 = Inl IndexError"
  by (simp add: cvolume_from_volume_ok cvolume_from_volume_raises uint_volume)

text \<open>The theorem at 2 channels and the volume 70, and at 32 and 40 channels.\<close>

theorem cvolume_from_volume_bounds_witness:
  "cvolume_from_volume 70 2
     = Inr \<lparr>cv_channels = 2, cv_values = (\<lambda>i. if i < 2 then 70 else 0)\<rparr>
   \<and> (\<exists>cv. cvolume_from_volume 70 2 = Inr cv
           \<and> (\<forall>i. uint (cv_values cv i) = (if i < 2 then 70 else 0)))
   \<and> cvolume_from_volume 70 32
     = Inr \<lparr>cv_channels = 32, cv_values = (\<lambda>i. if i < 32 then 70 else 0)\<rparr>
   \<and> cvolume_from_volume 70 40 = Inl IndexError"
  using cvolume_from_volume_bounds [of 2 70] cvolume_from_volume_bounds [of 32 70]
    cvolume_from_volume_bounds [of 40 70]
  by (simp cong: if_cong)

text \<open>
  C9 as stated fails for a volume that does not fit an \<open>uint32_t\<close>: with 2 channels
  the volume \<open>2 ^ 32\<close> leaves both slots at 0, the result of the volume 0, and not at
  the volume.
\<close>

theorem cvolume_from_volume_truncates:
  "cvolume_from_volume (2 ^ 32) 2 = Inr \<lparr>cv_channels = 2, cv_values = (\<lambda>i. 0)\<rparr>
   \<and> cvolume_from_volume (2 ^ 32) 2 = cvolume_from_volume 0 2
   \<and> cvolume_from_volume (2 ^ 32) 2
       \<noteq> Inr \<lparr>cv_channels = 2, cv_values = (\<lambda>i. if i < 2 then 1 else 0)\<rparr>"
proof -
  have z: "(4294967296 :: 32 word) = 0"
    by (simp add: word_uint_eq_iff)
  have a: "cvolume_from_volume (2 ^ 32) 2 = Inr \<lparr>cv_channels = 2, cv_values = (\<lambda>i. 0)\<rparr>"
    by (simp add: cvolume_from_volume_ok z cong: if_cong)
  have b: "cvolume_from_volume 0 2 = Inr \<lparr>cv_channels = 2, cv_values = (\<lambda>i. 0)\<rparr>"
    by (simp add: cvolume_from_volume_ok cong: if_cong)
  have "(\<lambda>i::nat. 0 :: 32 word) \<noteq> (\<lambda>i. if i < 2 then 1 else 0)"
    by (auto simp: fun_eq_iff intro: exI [of _ 0])
  with a b show ?thesis by simp
qed

lemma cvolume_vector_level:
  "n < 256 \<Longrightarrow> cvolume_vector (level_cvolume n v) = replicate n (word_of_int v)"
  by (simp add: cvolume_vector_def level_cvolume_def unat_of_nat list_eq_iff_nth_eq)

subsection \<open>C7: a volume becomes one value per channel\<close>

text \<open>
  C7, as the code has it. For a sink or a sink input whose channel count \<open>n\<close> is at
  most 32 and a volume \<open>v\<close> that fits an \<open>uint32_t\<close>, \<open>set_volume\<close> stores
  \<open>v\<close> in the object and sends one request for the index of the object, with a
  \<open>pa_cvolume\<close> that declares \<open>n\<close> channels and whose first \<open>n\<close> values are all
  \<open>v\<close>; \<open>n\<close> is the \<open>channels\<close> attribute of the object.
\<close>

theorem set_volume_expands:
  assumes "channels s \<le> 32" and "channels i \<le> 32" and "0 \<le> v" and "v < 2 ^ 32"
  shows "Sink_set_volume v s
           = (None, s\<lparr>volume := v\<rparr>, [Set_sink_volume (idx s) (level_cvolume (channels s) v)])
       \<and> SinkInput_set_volume v i
           = (None, i\<lparr>volume := v\<rparr>,
              [Set_sink_input_volume (idx i) (level_cvolume (channels i) v)])
       \<and> unat (cv_channels (level_cvolume (channels s) v)) = channels s
       \<and> map uint (cvolume_vector (level_cvolume (channels s) v)) = replicate (channels s) v
       \<and> unat (cv_channels (level_cvolume (channels i) v)) = channels i
       \<and> map uint (cvolume_vector (level_cvolume (channels i) v)) = replicate (channels i) v"
proof -
  have cv: "cvolume_from_volume v (int n) = Inr (level_cvolume n v)" if "n \<le> 32" for n
    using that by (simp add: cvolume_from_volume_ok level_cvolume_def)
  have vec: "unat (cv_channels (level_cvolume n v)) = n
             \<and> map uint (cvolume_vector (level_cvolume n v)) = replicate n v" if "n \<le> 32" for n
  proof -
    from that have "n < 256" by simp
    then show ?thesis
      using uint_volume [OF assms(3,4)]
      by (simp add: cvolume_vector_level) (simp add: level_cvolume_def unat_of_nat)
  qed
  show ?thesis
    using vec [OF assms(1)] vec [OF assms(2)]
    by (simp add: Sink_set_volume_def SinkInput_set_volume_def cv [OF assms(1)] cv [OF assms(2)])
qed

subsection \<open>The example structures, evaluated\<close>

lemma level_cvolume_reads:
  "n < 256 \<Longrightarrow> 0 < n \<Longrightarrow> 0 \<le> v \<Longrightarrow> v < 2 ^ 32 \<Longrightarrow>
     uint (cv_values (level_cvolume n v) 0) = v \<and> unat (cv_channels (level_cvolume n v)) = n"
  by (simp add: level_cvolume_def unat_of_nat uint_volume)

lemma Sink_init_example:
  assumes "n < 256" and "0 < n" and "0 \<le> v" and "v < 2 ^ 32"
  shows "Sink_init mgr i (example_sink_info name n v)
     = (\<lparr>idx = i, volume = v, channels = n, mute = False,
         icon_name_attr = Some (PyStr ''audio-card''), name_attr = ''Built-in Audio'',
         is_sink_input = False, sink_name = name\<rparr>,
        (if default_sink mgr = Some name then [Update_values v False] else [])
        @ [Update_sink_scale i v False])"
  using level_cvolume_reads [OF assms]
  by (auto simp add: Sink_init_def Sink_update_def ams_init_def ams_update_def is_main_sink_def
      example_sink_info_def decode_def sink.defs abstract_monitorable_sink.defs)

lemma Sink_update_example:
  assumes "n < 256" and "0 < n" and "0 \<le> v" and "v < 2 ^ 32"
  shows "Sink_update mgr (example_sink_info name n v) self
     = (\<lparr>idx = idx self, volume = v, channels = n, mute = False,
         icon_name_attr = Some (PyStr ''audio-card''), name_attr = ''Built-in Audio'',
         is_sink_input = is_sink_input self, sink_name = name\<rparr>,
        (if default_sink mgr = Some name then [Update_values v False] else [])
        @ [Update_sink_scale (idx self) v False])"
  using level_cvolume_reads [OF assms]
  by (cases self)
    (auto simp add: Sink_update_def ams_update_def is_main_sink_def
      example_sink_info_def decode_def)

lemma SinkInput_init_example:
  assumes "n < 256" and "0 < n" and "0 \<le> v" and "v < 2 ^ 32"
  shows "SinkInput_init i (example_input_info name driver c n v) ps
     = (\<lparr>idx = i, volume = v, channels = n, mute = False,
         icon_name_attr = Some (case ps ''media.icon_name'' of
                    None \<Rightarrow> props_get_decoded ps ''application.icon_name''
                  | Some b \<Rightarrow> PyStr (decode b)),
         name_attr = [], is_sink_input = True, sink_idx_attr = 0, client = Some c,
         app_name = Some (props_get_decoded ps ''application.name''),
         media_name = Some (props_get_decoded ps ''media.name'')\<rparr>,
        [Update_sink_input_scale i v False])"
  using level_cvolume_reads [OF assms]
  by (simp add: SinkInput_init_def SinkInput_update_def ams_init_def ams_update_def
      example_input_info_def sink_input.defs abstract_monitorable_sink.defs)

text \<open>C7 at a sink and a sink input of 2 channels and the volume 70.\<close>

theorem set_volume_expands_witness:
  "Sink_set_volume 70 (fst (Sink_init init_manager 3 (example_sink_info ''a'' 2 50)))
     = (None, fst (Sink_init init_manager 3 (example_sink_info ''a'' 2 50))\<lparr>volume := 70\<rparr>,
        [Set_sink_volume 3 (level_cvolume 2 70)])
   \<and> map uint (cvolume_vector (level_cvolume 2 70)) = [70, 70]
   \<and> SinkInput_set_volume 70
        (fst (SinkInput_init 4 (example_input_info ''x'' ''protocol-native.c'' 1 2 50) Map.empty))
     = (None,
        fst (SinkInput_init 4 (example_input_info ''x'' ''protocol-native.c'' 1 2 50) Map.empty)
          \<lparr>volume := 70\<rparr>,
        [Set_sink_input_volume 4 (level_cvolume 2 70)])"
  using set_volume_expands
    [of "fst (Sink_init init_manager 3 (example_sink_info ''a'' 2 50))"
        "fst (SinkInput_init 4 (example_input_info ''x'' ''protocol-native.c'' 1 2 50) Map.empty)"
        70]
  by (simp add: Sink_init_example SinkInput_init_example numeral_2_eq_2)

text \<open>
  C7 as stated fails outside these bounds: for a sink of 33 channels \<open>set_volume\<close>
  raises \<open>IndexError\<close> and sends nothing, and the volume \<open>2 ^ 32\<close> is sent
  as 0 on each channel.
\<close>

theorem set_volume_out_of_range:
  "channels (fst (Sink_init init_manager 3 (example_sink_info ''a'' 33 50))) = 33
   \<and> fst (Sink_set_volume 70 (fst (Sink_init init_manager 3 (example_sink_info ''a'' 33 50))))
       = Some IndexError
   \<and> snd (snd (Sink_set_volume 70 (fst (Sink_init init_manager 3 (example_sink_info ''a'' 33 50)))))
       = []
   \<and> channels (fst (Sink_init init_manager 3 (example_sink_info ''a'' 2 50))) = 2
   \<and> snd (snd (Sink_set_volume (2 ^ 32) (fst (Sink_init init_manager 3 (example_sink_info ''a'' 2 50)))))
       = [Set_sink_volume 3 (level_cvolume 2 0)]
   \<and> map uint (cvolume_vector (level_cvolume 2 0)) = [0, 0]"
proof -
  have a: "cvolume_from_volume 70 33 = Inl IndexError"
    by (simp add: cvolume_from_volume_raises)
  have z: "(4294967296 :: 32 word) = 0"
    by (simp add: word_uint_eq_iff)
  have b: "cvolume_from_volume (2 ^ 32) 2 = Inr (level_cvolume 2 0)"
    by (simp add: cvolume_from_volume_ok z level_cvolume_def cong: if_cong)
  have c: "map uint (cvolume_vector (level_cvolume 2 0)) = [0, 0]"
    by (simp add: cvolume_vector_level numeral_2_eq_2)
  show ?thesis
    using a b c by (simp add: Sink_set_volume_def Sink_init_example)
qed

subsection \<open>Evaluating the handlers\<close>

lemmas handler_defs = on_new_pa_sink_def on_remove_pa_sink_def on_new_pa_client_def
  on_remove_pa_client_def on_new_pa_sink_input_def on_remove_pa_sink_input_def
  on_default_sink_def set_main_volume_def toggle_main_mute_def

lemmas dict_defs = dict_keys_def dict_contains_def dict_getitem_def dict_remove_def
  dict_delitem_def dict_pop_def list_first_def getattr_def

subsection \<open>C10: the main sink of an empty manager\<close>

text \<open>
  C10. With no default sink set and no sink in the dictionary, \<open>get_first_sink\<close>
  and \<open>get_main_sink\<close> return \<open>None\<close>; neither raises.
\<close>

theorem get_main_sink_empty:
  "default_sink mgr = None \<Longrightarrow> pa_sinks mgr = [] \<Longrightarrow>
     get_first_sink mgr = Inr None \<and> get_main_sink mgr = Inr None"
  by (simp add: get_main_sink_def get_first_sink_def dict_defs)

text \<open>C10 at the manager as \<open>__init__\<close> leaves it.\<close>

theorem get_main_sink_empty_witness:
  "default_sink init_manager = None \<and> pa_sinks init_manager = []
   \<and> get_first_sink init_manager = Inr None \<and> get_main_sink init_manager = Inr None"
  using get_main_sink_empty [of init_manager]
  by (simp add: init_manager_def)

subsection \<open>C3: removing an index that is not there\<close>

text \<open>
  C3, on the code. For an index that is not in the dictionary, the removal handlers of
  clients and of sink inputs return with the manager unchanged (no call is queued), and
  so C3 holds for them; the removal handler of sinks raises \<open>KeyError\<close> (the manager
  is unchanged), where C3 says it does not raise.
\<close>

theorem remove_unknown_index:
  "(\<not> dict_contains i (pa_clients mgr) \<longrightarrow> on_remove_pa_client i mgr = (None, mgr))
   \<and> (\<not> dict_contains i (pa_sink_inputs mgr) \<longrightarrow> on_remove_pa_sink_input i mgr = (None, mgr))
   \<and> (\<not> dict_contains i (pa_sinks mgr) \<longrightarrow> on_remove_pa_sink i mgr = (Some KeyError, mgr))"
proof -
  have "map_of (pa_sinks mgr) i = None" if "\<not> dict_contains i (pa_sinks mgr)"
    using that by (simp add: dict_contains_def dict_keys_def map_of_eq_None_iff)
  then show ?thesis
    by (simp add: on_remove_pa_client_def on_remove_pa_sink_input_def on_remove_pa_sink_def
        dict_pop_def)
qed

text \<open>C3 at index 7 of a manager that holds nothing.\<close>

theorem remove_unknown_index_witness:
  "on_remove_pa_client 7 init_manager = (None, init_manager)
   \<and> on_remove_pa_sink_input 7 init_manager = (None, init_manager)
   \<and> on_remove_pa_sink 7 init_manager = (Some KeyError, init_manager)"
  using remove_unknown_index [of 7 init_manager]
  by (simp add: init_manager_def dict_contains_def dict_keys_def)

subsection \<open>C4: which sink inputs are admitted\<close>

text \<open>A sink input whose driver is neither of the two accepted ones changes nothing,
  and the handler's result does not depend on the name of the sink input at all.\<close>

lemma sink_input_driver_rejected:
  "decode (input_info_driver struct) \<notin> {''protocol-native.c'', ''PipeWire''} \<Longrightarrow>
     on_new_pa_sink_input i struct ps mgr = (None, mgr)"
  by (simp add: on_new_pa_sink_input_def)

lemma SinkInput_update_name_not_read:
  "SinkInput_update (struct\<lparr>input_info_name := n\<rparr>) ps self = SinkInput_update struct ps self"
  by (simp add: SinkInput_update_def)

lemma sink_input_name_not_read:
  "on_new_pa_sink_input i (struct\<lparr>input_info_name := n\<rparr>) ps mgr
     = on_new_pa_sink_input i struct ps mgr"
  by (simp add: on_new_pa_sink_input_def SinkInput_init_def SinkInput_update_name_not_read
      split: sum.splits)

text \<open>
  C4, on the code. A sink input named \<open>audio-volume-change\<close> (a \<open>bytes\<close>, as
  ctypes gives it) of the driver \<open>protocol-native.c\<close> is admitted: on a manager that
  holds nothing, index 4 gets a \<open>SinkInput\<close> and two calls are queued; a second arrival
  updates the \<open>SinkInput\<close> and queues a third call. C4 says that nothing is created,
  updated or queued.
\<close>

theorem feedback_sound_admitted:
  "on_new_pa_sink_input 4 (example_input_info ''audio-volume-change'' ''protocol-native.c'' 1 2 50)
       Map.empty init_manager
     = (None,
        init_manager
          \<lparr>pa_sink_inputs :=
             [(4, \<lparr>idx = 4, volume = 50, channels = 2, mute = False,
                   icon_name_attr = Some PyNone, name_attr = [], is_sink_input = True,
                   sink_idx_attr = 0, client = Some 1, app_name = Some PyNone,
                   media_name = Some PyNone\<rparr>)],
           idle_calls := [Update_sink_input_scale 4 50 False, Slider_count_changed]\<rparr>)
   \<and> snd (on_new_pa_sink_input 4
           (example_input_info ''audio-volume-change'' ''protocol-native.c'' 1 2 70) Map.empty
           (snd (on_new_pa_sink_input 4
              (example_input_info ''audio-volume-change'' ''protocol-native.c'' 1 2 50)
              Map.empty init_manager)))
     = init_manager
          \<lparr>pa_sink_inputs :=
             [(4, \<lparr>idx = 4, volume = 70, channels = 2, mute = False,
                   icon_name_attr = Some PyNone, name_attr = [], is_sink_input = True,
                   sink_idx_attr = 0, client = Some 1, app_name = Some PyNone,
                   media_name = Some PyNone\<rparr>)],
           idle_calls := [Update_sink_input_scale 4 50 False, Slider_count_changed,
                          Update_sink_input_scale 4 70 False]\<rparr>"
proof -
  have a: "input_info_name (example_input_info n d c k v) = n"
    "input_info_driver (example_input_info n d c k v) = d" for n d c k v
    by (simp_all add: example_input_info_def)
  have u: "SinkInput_update (example_input_info n d c 2 70) Map.empty self
     = (self\<lparr>volume := 70, channels := 2, mute := False, sink_idx_attr := 0, client := Some c,
             app_name := Some PyNone, media_name := Some PyNone, icon_name_attr := Some PyNone\<rparr>,
        [Update_sink_input_scale (idx self) 70 False])" for n d c self
    using level_cvolume_reads [of 2 70]
    by (simp add: SinkInput_update_def ams_update_def example_input_info_def
        props_get_decoded_def)
  show ?thesis
    by (simp add: on_new_pa_sink_input_def a decode_def SinkInput_init_example u
        props_get_decoded_def init_manager_def dict_defs)
qed

subsection \<open>C6: what a sink upsert queues\<close>

text \<open>The invariant \<open>sinks_indexed\<close> holds after every run of the manager.\<close>

lemma set_dict_setitem: "set (dict_setitem d k v) \<subseteq> insert (k, v) (set d)"
  by (induction d) auto

lemma set_dict_remove: "set (dict_remove k d) \<subseteq> set d"
  by (auto simp: dict_remove_def)

lemma idx_Sink_update: "idx (fst (Sink_update mgr struct self)) = idx self"
  by (simp add: Sink_update_def ams_update_def Let_def)

lemma idx_Sink_init: "idx (fst (Sink_init mgr i struct)) = i"
  by (simp add: Sink_init_def idx_Sink_update ams_init_def)

lemma idx_Sink_set_volume: "idx (fst (snd (Sink_set_volume v self))) = idx self"
  by (simp add: Sink_set_volume_def Let_def split: sum.splits)

lemma idx_Sink_set_mute: "idx (fst (Sink_set_mute m self)) = idx self"
  by (simp add: Sink_set_mute_def Let_def)

lemma sinks_indexed_update:
  assumes "sinks_indexed mgr" and "idx s = idx (sink_objects mgr ! r)"
    and "pa_sinks mgr' = pa_sinks mgr" and "sink_objects mgr' = (sink_objects mgr)[r := s]"
  shows "sinks_indexed mgr'"
proof -
  have "snd p < length (sink_objects mgr') \<and> idx (sink_objects mgr' ! snd p) = fst p"
    if "p \<in> set (pa_sinks mgr')" for p
  proof -
    from that assms(1,3) have "snd p < length (sink_objects mgr)"
      and "idx (sink_objects mgr ! snd p) = fst p"
      by (auto simp: sinks_indexed_def list_all_iff)
    then show ?thesis using assms(2,4) by (cases "snd p = r") auto
  qed
  then show ?thesis by (simp add: sinks_indexed_def list_all_iff)
qed

lemma sinks_indexed_same:
  assumes "sinks_indexed mgr"
    and "set (pa_sinks mgr') \<subseteq> set (pa_sinks mgr)" and "sink_objects mgr' = sink_objects mgr"
  shows "sinks_indexed mgr'"
  using assms by (auto simp: sinks_indexed_def list_all_iff)

lemma sinks_indexed_new:
  assumes "sinks_indexed mgr" and "idx s = i"
    and "pa_sinks mgr' = dict_setitem (pa_sinks mgr) i (length (sink_objects mgr))"
    and "sink_objects mgr' = sink_objects mgr @ [s]"
  shows "sinks_indexed mgr'"
proof -
  have "snd p < length (sink_objects mgr') \<and> idx (sink_objects mgr' ! snd p) = fst p"
    if "p \<in> set (pa_sinks mgr')" for p
  proof -
    from that assms(3) set_dict_setitem [of "pa_sinks mgr" i "length (sink_objects mgr)"]
    consider "p = (i, length (sink_objects mgr))" | "p \<in> set (pa_sinks mgr)" by auto
    then show ?thesis
    proof cases
      case 1
      then show ?thesis using assms(2,4) by simp
    next
      case 2
      with assms(1) have "snd p < length (sink_objects mgr)"
        and "idx (sink_objects mgr ! snd p) = fst p"
        by (auto simp: sinks_indexed_def list_all_iff)
      then show ?thesis using assms(4) by (simp add: nth_append)
    qed
  qed
  then show ?thesis by (simp add: sinks_indexed_def list_all_iff)
qed

lemma sinks_indexed_on_new_pa_sink:
  assumes "sinks_indexed mgr"
  shows "sinks_indexed (snd (on_new_pa_sink i struct mgr))"
proof (cases "dict_contains i (pa_sinks mgr)")
  case False
  obtain s calls where si: "Sink_init mgr i struct = (s, calls)" by (cases "Sink_init mgr i struct")
  then have "idx s = i" using idx_Sink_init [of mgr i struct] by simp
  then show ?thesis
    using False si
    by (intro sinks_indexed_new [OF assms, of s i]) (simp_all add: on_new_pa_sink_def Let_def)
next
  case True
  show ?thesis
  proof (cases "dict_getitem (pa_sinks mgr) i")
    case (Inl e)
    then show ?thesis using True assms by (simp add: on_new_pa_sink_def)
  next
    case (Inr r)
    obtain s calls where su: "Sink_update mgr struct (sink_objects mgr ! r) = (s, calls)"
      by (cases "Sink_update mgr struct (sink_objects mgr ! r)")
    then have "idx s = idx (sink_objects mgr ! r)"
      using idx_Sink_update [of mgr struct "sink_objects mgr ! r"] by simp
    then show ?thesis
      using True Inr su
      by (intro sinks_indexed_update [OF assms, of s r])
        (simp_all add: on_new_pa_sink_def Let_def split: sum.splits)
  qed
qed

lemma sinks_indexed_on_remove_pa_sink:
  assumes "sinks_indexed mgr"
  shows "sinks_indexed (snd (on_remove_pa_sink i mgr))"
  using set_dict_remove [of i "pa_sinks mgr"]
  by (intro sinks_indexed_same [OF assms])
    (auto simp add: on_remove_pa_sink_def dict_pop_def pa_sink_index_by_name_def getattr_def
      split: option.splits)

lemma sinks_indexed_set_main_volume:
  assumes "sinks_indexed mgr"
  shows "sinks_indexed (snd (set_main_volume v mgr))"
proof (cases "get_main_sink mgr")
  case (Inl e)
  then show ?thesis using assms by (simp add: set_main_volume_def)
next
  case (Inr ro)
  show ?thesis
  proof (cases ro)
    case None
    then show ?thesis using Inr assms by (simp add: set_main_volume_def)
  next
    case (Some r)
    obtain err s reqs where sv: "Sink_set_volume v (sink_objects mgr ! r) = (err, s, reqs)"
      by (cases "Sink_set_volume v (sink_objects mgr ! r)")
    then have "idx s = idx (sink_objects mgr ! r)"
      using idx_Sink_set_volume [of v "sink_objects mgr ! r"] by simp
    then show ?thesis
      using Inr Some sv
      by (intro sinks_indexed_update [OF assms, of s r]) (simp_all add: set_main_volume_def)
  qed
qed

lemma sinks_indexed_toggle_main_mute:
  assumes "sinks_indexed mgr"
  shows "sinks_indexed (snd (toggle_main_mute mgr))"
proof (cases "get_main_sink mgr")
  case (Inl e)
  then show ?thesis using assms by (simp add: toggle_main_mute_def)
next
  case (Inr ro)
  show ?thesis
  proof (cases ro)
    case None
    then show ?thesis using Inr assms by (simp add: toggle_main_mute_def)
  next
    case (Some r)
    obtain s reqs where sv:
      "Sink_set_mute (\<not> mute (sink_objects mgr ! r)) (sink_objects mgr ! r) = (s, reqs)"
      by (cases "Sink_set_mute (\<not> mute (sink_objects mgr ! r)) (sink_objects mgr ! r)")
    then have "idx s = idx (sink_objects mgr ! r)"
      using idx_Sink_set_mute [of "\<not> mute (sink_objects mgr ! r)" "sink_objects mgr ! r"] by simp
    then show ?thesis
      using Inr Some sv
      by (intro sinks_indexed_update [OF assms, of s r]) (simp_all add: toggle_main_mute_def)
  qed
qed

lemma sinks_untouched:
  "pa_sinks (snd (on_new_pa_client i cs ps mgr)) = pa_sinks mgr"
  "sink_objects (snd (on_new_pa_client i cs ps mgr)) = sink_objects mgr"
  "pa_sinks (snd (on_remove_pa_client i mgr)) = pa_sinks mgr"
  "sink_objects (snd (on_remove_pa_client i mgr)) = sink_objects mgr"
  "pa_sinks (snd (on_new_pa_sink_input i struct ps mgr)) = pa_sinks mgr"
  "sink_objects (snd (on_new_pa_sink_input i struct ps mgr)) = sink_objects mgr"
  "pa_sinks (snd (on_remove_pa_sink_input i mgr)) = pa_sinks mgr"
  "sink_objects (snd (on_remove_pa_sink_input i mgr)) = sink_objects mgr"
  "pa_sinks (snd (on_default_sink name mgr)) = pa_sinks mgr"
  "sink_objects (snd (on_default_sink name mgr)) = sink_objects mgr"
  by (simp_all add: on_new_pa_client_def on_remove_pa_client_def on_new_pa_sink_input_def
      on_remove_pa_sink_input_def on_default_sink_def Let_def split: sum.splits prod.splits)

lemma sinks_indexed_handle:
  "sinks_indexed mgr \<Longrightarrow> sinks_indexed (snd (handle e mgr))"
proof (cases e)
  case (New_sink i struct)
  assume "sinks_indexed mgr"
  then show ?thesis using New_sink by (simp add: sinks_indexed_on_new_pa_sink)
next
  case (Remove_sink i)
  assume "sinks_indexed mgr"
  then show ?thesis using Remove_sink by (simp add: sinks_indexed_on_remove_pa_sink)
next
  case (Set_main_volume v)
  assume "sinks_indexed mgr"
  then show ?thesis using Set_main_volume by (simp add: sinks_indexed_set_main_volume)
next
  case Toggle_main_mute
  assume "sinks_indexed mgr"
  then show ?thesis using Toggle_main_mute by (simp add: sinks_indexed_toggle_main_mute)
qed (auto intro: sinks_indexed_same simp: sinks_untouched)

lemma sinks_indexed_run_from:
  "sinks_indexed mgr \<Longrightarrow> sinks_indexed (run_from mgr es)"
  by (induction es arbitrary: mgr) (simp_all add: sinks_indexed_handle)

lemma sinks_indexed_run: "sinks_indexed (run es)"
  unfolding run_def
  by (rule sinks_indexed_run_from) (simp add: sinks_indexed_def init_manager_def)

text \<open>
  C6. On a manager reached by any run, \<open>_on_new_pa_sink\<close> for the index \<open>i\<close>
  queues: \<open>update_values\<close> with the new volume and mute if and only if the default
  sink is set and is the name the structure gives; then, in every case,
  \<open>update_sink_scale\<close> for \<open>i\<close> with the new volume and mute; then
  \<open>slider_count_changed\<close> when the index was new. Nothing else is queued.
\<close>

theorem sink_upsert_notifications:
  "idle_calls (snd (on_new_pa_sink i struct (run es)))
     = idle_calls (run es)
       @ (if default_sink (run es) = Some (sink_info_name struct)
          then [Update_values (uint (cv_values (sink_info_volume struct) 0))
                  (sink_info_mute struct \<noteq> 0)]
          else [])
       @ [Update_sink_scale i (uint (cv_values (sink_info_volume struct) 0))
            (sink_info_mute struct \<noteq> 0)]
       @ (if dict_contains i (pa_sinks (run es)) then [] else [Slider_count_changed])"
proof (cases "dict_contains i (pa_sinks (run es))")
  case False
  then show ?thesis
    by (auto simp add: on_new_pa_sink_def Sink_init_def Sink_update_def ams_init_def
        ams_update_def is_main_sink_def Let_def)
next
  case True
  then obtain r where r: "map_of (pa_sinks (run es)) i = Some r"
    by (auto simp: dict_contains_def dict_keys_def dest: weak_map_of_SomeI)
  then have "(i, r) \<in> set (pa_sinks (run es))" by (rule map_of_SomeD)
  with sinks_indexed_run [of es] have ix: "idx (sink_objects (run es) ! r) = i"
    by (auto simp: sinks_indexed_def list_all_iff)
  show ?thesis
    using True r ix
    by (auto simp add: on_new_pa_sink_def dict_getitem_def Sink_update_def ams_update_def
        is_main_sink_def Let_def split: sum.splits)
qed

text \<open>
  C6 on the scenario of the specification: sink 3 is reported with volume 50 before a
  default sink is known, which queues no \<open>update_values\<close>; after the default sink is
  set to its name, the report with volume 70 queues \<open>update_values(70, False)\<close>.
\<close>

theorem sink_upsert_notifications_witness:
  "idle_calls (snd (on_new_pa_sink 3 (example_sink_info ''a'' 2 50) (run [])))
     = [Update_sink_scale 3 50 False, Slider_count_changed]
   \<and> idle_calls (snd (on_new_pa_sink 3 (example_sink_info ''a'' 2 70)
        (run [New_sink 3 (example_sink_info ''a'' 2 50), Default_sink (Some ''a'')])))
     = [Update_sink_scale 3 50 False, Slider_count_changed,
        Update_values 70 False, Update_sink_scale 3 70 False]"
proof -
  have f: "sink_info_name (example_sink_info n k v) = n"
    "sink_info_mute (example_sink_info n k v) = 0"
    "sink_info_volume (example_sink_info n k v) = level_cvolume k v" for n k v
    by (simp_all add: example_sink_info_def)
  have v: "uint (cv_values (level_cvolume 2 50) 0) = 50" "uint (cv_values (level_cvolume 2 70) 0) = 70"
    using level_cvolume_reads [of 2 50] level_cvolume_reads [of 2 70] by simp_all
  have r0: "idle_calls (run []) = [] \<and> default_sink (run []) = None
            \<and> \<not> dict_contains 3 (pa_sinks (run []))"
    by (simp add: run_def init_manager_def dict_defs)
  have r1: "idle_calls (run [New_sink 3 (example_sink_info ''a'' 2 50), Default_sink (Some ''a'')])
              = [Update_sink_scale 3 50 False, Slider_count_changed]
            \<and> default_sink (run [New_sink 3 (example_sink_info ''a'' 2 50), Default_sink (Some ''a'')])
              = Some ''a''
            \<and> dict_contains 3
                (pa_sinks (run [New_sink 3 (example_sink_info ''a'' 2 50), Default_sink (Some ''a'')]))"
    by (simp add: run_def handler_defs dict_defs init_manager_def Sink_init_example)
  show ?thesis
    using sink_upsert_notifications [of 3 "example_sink_info ''a'' 2 50" "[]"]
      sink_upsert_notifications [of 3 "example_sink_info ''a'' 2 70"
        "[New_sink 3 (example_sink_info ''a'' 2 50), Default_sink (Some ''a'')]"]
    by (simp only: f v r0 r1) simp
qed

subsection \<open>C8: the name and the icon of a sink input\<close>

text \<open>After \<open>update\<close> the three attributes are assigned, so the two properties are
  decided by the property list alone; the manager (and so the client) is not read.\<close>

lemma SinkInput_name_after_update:
  "SinkInput_name mgr (fst (SinkInput_update struct ps self))
     = Inr (PyStr (format_value (props_get_decoded ps ''application.name'') @ '': ''
                   @ format_value (props_get_decoded ps ''media.name'')))"
  by (simp add: SinkInput_name_def format_name_def SinkInput_update_def getattr_def Let_def)

lemma SinkInput_icon_name_after_update:
  "SinkInput_icon_name mgr (fst (SinkInput_update struct ps self))
     = Inr (case ps ''media.icon_name'' of
              None \<Rightarrow> props_get_decoded ps ''application.icon_name''
            | Some b \<Rightarrow> PyStr (decode b))"
  by (simp add: SinkInput_icon_name_def SinkInput_update_def getattr_def Let_def)

lemma example_input_fields:
  "input_info_name (example_input_info n d c k v) = n"
  "input_info_driver (example_input_info n d c k v) = d"
  by (simp_all add: example_input_info_def)

text \<open>Every sink input a run of the manager has stored has these attributes, so
  its two properties return at the \<open>try\<close> body, whatever the manager holds.\<close>

lemma attrs_assigned_update: "attrs_assigned (fst (SinkInput_update struct ps self))"
  by (simp add: attrs_assigned_def SinkInput_update_def Let_def)

lemma attrs_assigned_init: "attrs_assigned (fst (SinkInput_init i struct ps))"
  by (simp add: SinkInput_init_def attrs_assigned_update)

lemma attrs_assigned_reads:
  assumes "attrs_assigned si"
  shows "\<exists>a m v. app_name si = Some a \<and> media_name si = Some m \<and> icon_name_attr si = Some v
           \<and> SinkInput_name mgr si = Inr (PyStr (format_value a @ '': '' @ format_value m))
           \<and> SinkInput_icon_name mgr si = Inr v"
  using assms
  by (auto simp add: attrs_assigned_def SinkInput_name_def SinkInput_icon_name_def
      format_name_def getattr_def)

lemma inputs_assigned_on_new:
  assumes "list_all (\<lambda>p. attrs_assigned (snd p)) (pa_sink_inputs mgr)"
  shows "list_all (\<lambda>p. attrs_assigned (snd p))
           (pa_sink_inputs (snd (on_new_pa_sink_input i struct ps mgr)))"
proof -
  have step: "list_all (\<lambda>p. attrs_assigned (snd p)) (dict_setitem (pa_sink_inputs mgr) i si)"
    if "attrs_assigned si" for si
    using that assms set_dict_setitem [of "pa_sink_inputs mgr" i si]
    by (auto simp: list_all_iff)
  obtain s1 c1 where i1: "SinkInput_init i struct ps = (s1, c1)"
    by (cases "SinkInput_init i struct ps")
  then have a1: "attrs_assigned s1" using attrs_assigned_init [of i struct ps] by simp
  have a2: "attrs_assigned s2" if "SinkInput_update struct ps x = (s2, c2)" for x s2 c2
    using that attrs_assigned_update [of struct ps x] by simp
  show ?thesis
    using assms i1 step [OF a1] a2
    by (auto simp add: on_new_pa_sink_input_def split: sum.splits prod.splits intro: step)
qed

lemma inputs_assigned_handle:
  assumes "list_all (\<lambda>p. attrs_assigned (snd p)) (pa_sink_inputs mgr)"
  shows "list_all (\<lambda>p. attrs_assigned (snd p)) (pa_sink_inputs (snd (handle e mgr)))"
proof (cases e)
  case (New_sink_input i struct ps)
  then show ?thesis using inputs_assigned_on_new [OF assms] by simp
next
  case (Remove_sink_input i)
  then show ?thesis
    using assms set_dict_remove [of i "pa_sink_inputs mgr"]
    by (auto simp: on_remove_pa_sink_input_def dict_delitem_def list_all_iff)
qed (use assms in \<open>auto simp add: handler_defs Let_def pa_sink_index_by_name_def getattr_def
      dict_pop_def split: sum.splits prod.splits option.splits\<close>)

lemma inputs_assigned_run_from:
  "list_all (\<lambda>p. attrs_assigned (snd p)) (pa_sink_inputs mgr) \<Longrightarrow>
     list_all (\<lambda>p. attrs_assigned (snd p)) (pa_sink_inputs (run_from mgr es))"
  by (induction es arbitrary: mgr) (simp_all add: inputs_assigned_handle)

lemma stored_sink_input_reads:
  assumes "(i, si) \<in> set (pa_sink_inputs (run es))"
  shows "\<exists>a m v. app_name si = Some a \<and> media_name si = Some m \<and> icon_name_attr si = Some v
           \<and> SinkInput_name mgr si = Inr (PyStr (format_value a @ '': '' @ format_value m))
           \<and> SinkInput_icon_name mgr si = Inr v"
proof -
  have "list_all (\<lambda>p. attrs_assigned (snd p)) (pa_sink_inputs (run es))"
    unfolding run_def by (rule inputs_assigned_run_from) (simp add: init_manager_def)
  with assms have "attrs_assigned si" by (auto simp: list_all_iff)
  then show ?thesis by (rule attrs_assigned_reads)
qed

text \<open>
  C8, on the code. Client 7 is known with the name \<open>Firefox\<close> and the icon
  \<open>firefox\<close>; sink input 4 of client 7 arrives with no properties. Its \<open>name\<close> is
  \<open>"None: None"\<close> and its \<open>icon_name\<close> is \<open>None\<close>, where C8 gives the name and the
  icon of the client. After client 7 is removed the two reads give the same values
  and do not raise.
\<close>

theorem stream_reads_ignore_client:
  "pa_clients (run example_stream_events)
     = [(7, \<lparr>client_idx = 7, client_name = ''Firefox'', client_icon_name = PyStr ''firefox''\<rparr>)]
   \<and> map (\<lambda>(i, si). (i, client si, SinkInput_name (run example_stream_events) si,
                       SinkInput_icon_name (run example_stream_events) si))
        (pa_sink_inputs (run example_stream_events))
     = [(4, Some 7, Inr (PyStr ''None: None''), Inr PyNone)]
   \<and> pa_clients (run (example_stream_events @ [Remove_client 7])) = []
   \<and> map (\<lambda>(i, si). (i, client si,
                       SinkInput_name (run (example_stream_events @ [Remove_client 7])) si,
                       SinkInput_icon_name (run (example_stream_events @ [Remove_client 7])) si))
        (pa_sink_inputs (run (example_stream_events @ [Remove_client 7])))
     = [(4, Some 7, Inr (PyStr ''None: None''), Inr PyNone)]"
  by (simp add: example_stream_events_def run_def handler_defs dict_defs init_manager_def
      Client_init_def Client_update_def decode_def SinkInput_init_example example_input_fields
      SinkInput_name_def SinkInput_icon_name_def format_name_def props_get_decoded_def)

subsection \<open>C2: the dictionary of the sinks by name\<close>

lemma remove_sink_never_succeeds:
  "fst (on_remove_pa_sink i mgr) = Some KeyError \<or> fst (on_remove_pa_sink i mgr) = Some AttributeError"
  by (simp add: on_remove_pa_sink_def dict_pop_def pa_sink_index_by_name_def getattr_def
      split: option.splits)

text \<open>
  An upsert keeps the two dictionaries in step, for a new index and for a known one whose
  name may change, as long as no other live sink has the name that arrives; it does
  not raise. A removal of a live sink takes them out of step.
\<close>

lemma set_dict_setitem_eq:
  "distinct (map fst d) \<Longrightarrow> set (dict_setitem d k v) = {p \<in> set d. fst p \<noteq> k} \<union> {(k, v)}"
proof (induction d)
  case Nil
  then show ?case by simp
next
  case (Cons p d)
  then have "\<forall>q \<in> set d. fst q \<noteq> fst p" by (auto simp: image_iff)
  with Cons show ?case by auto
qed

lemma keys_dict_setitem: "fst ` set (dict_setitem d k v) = insert k (fst ` set d)"
  by (induction d) auto

lemma distinct_dict_setitem:
  "distinct (map fst d) \<Longrightarrow> distinct (map fst (dict_setitem d k v))"
proof (induction d)
  case Nil
  then show ?case by simp
next
  case (Cons p d)
  then show ?case using keys_dict_setitem [of d k v] by (auto simp: image_iff)
qed

lemma set_dict_remove_eq: "set (dict_remove k d) = {p \<in> set d. fst p \<noteq> k}"
  by (auto simp: dict_remove_def)

lemma distinct_dict_remove: "distinct (map fst d) \<Longrightarrow> distinct (map fst (dict_remove k d))"
  by (simp add: dict_remove_def distinct_map_filter)

lemma sink_name_Sink_update: "sink_name (fst (Sink_update mgr struct self)) = sink_info_name struct"
  by (simp add: Sink_update_def ams_update_def Let_def)

lemma sink_name_Sink_init: "sink_name (fst (Sink_init mgr i struct)) = sink_info_name struct"
  by (simp add: Sink_init_def sink_name_Sink_update)

lemma upsert_new_keeps_names_in_sync:
  assumes sync: "names_in_sync mgr"
    and new: "\<not> dict_contains i (pa_sinks mgr)"
    and uniq: "\<forall>p \<in> set (pa_sinks mgr). sink_name (sink_objects mgr ! snd p) \<noteq> sink_info_name struct"
  shows "fst (on_new_pa_sink i struct mgr) = None \<and> names_in_sync (snd (on_new_pa_sink i struct mgr))"
proof -
  let ?n = "sink_info_name struct"
  let ?r = "length (sink_objects mgr)"
  obtain s calls where si: "Sink_init mgr i struct = (s, calls)" by (cases "Sink_init mgr i struct")
  then have sn: "sink_name s = ?n" using sink_name_Sink_init [of mgr i struct] by simp
  let ?mgr' = "snd (on_new_pa_sink i struct mgr)"
  have flds: "sink_objects ?mgr' = sink_objects mgr @ [s]"
    "pa_sinks ?mgr' = dict_setitem (pa_sinks mgr) i ?r"
    "pa_sinks_by_name ?mgr' = dict_setitem (pa_sinks_by_name mgr) ?n ?r"
    and ok: "fst (on_new_pa_sink i struct mgr) = None"
    using new si sn by (simp_all add: on_new_pa_sink_def Let_def)
  from sync have ix: "sinks_indexed mgr" and d1: "distinct (map fst (pa_sinks mgr))"
    and d2: "distinct (map fst (pa_sinks_by_name mgr))"
    and eq: "set (pa_sinks_by_name mgr) = name_entries mgr"
    by (simp_all add: names_in_sync_def)
  have ix': "sinks_indexed ?mgr'"
    using sinks_indexed_on_new_pa_sink [OF ix] .
  from new have nokey: "\<forall>p \<in> set (pa_sinks mgr). fst p \<noteq> i"
    by (auto simp: dict_contains_def dict_keys_def)
  have ps: "set (pa_sinks ?mgr') = set (pa_sinks mgr) \<union> {(i, ?r)}"
    using nokey by (auto simp: flds set_dict_setitem_eq [OF d1])
  have noname: "\<forall>p \<in> set (pa_sinks_by_name mgr). fst p \<noteq> ?n"
    using uniq by (auto simp: eq name_entries_def)
  have bn: "set (pa_sinks_by_name ?mgr') = set (pa_sinks_by_name mgr) \<union> {(?n, ?r)}"
    using noname by (auto simp: flds set_dict_setitem_eq [OF d2])
  have old: "sink_objects ?mgr' ! snd p = sink_objects mgr ! snd p" if "p \<in> set (pa_sinks mgr)" for p
  proof -
    from that ix have "snd p < length (sink_objects mgr)"
      by (auto simp: sinks_indexed_def list_all_iff)
    then show ?thesis by (simp add: flds nth_append)
  qed
  have "name_entries ?mgr' = name_entries mgr \<union> {(?n, ?r)}"
    unfolding name_entries_def ps
    using old sn by (auto simp: flds image_iff)
  with bn eq have "set (pa_sinks_by_name ?mgr') = name_entries ?mgr'" by simp
  moreover have "distinct (map fst (pa_sinks ?mgr'))"
    by (simp add: flds distinct_dict_setitem [OF d1])
  moreover have "distinct (map fst (pa_sinks_by_name ?mgr'))"
    by (simp add: flds distinct_dict_setitem [OF d2])
  ultimately show ?thesis using ok ix' by (simp add: names_in_sync_def)
qed

lemma upsert_known_keeps_names_in_sync:
  assumes sync: "names_in_sync mgr"
    and known: "dict_contains i (pa_sinks mgr)"
    and uniq: "\<forall>p \<in> set (pa_sinks mgr).
                 fst p \<noteq> i \<longrightarrow> sink_name (sink_objects mgr ! snd p) \<noteq> sink_info_name struct"
  shows "fst (on_new_pa_sink i struct mgr) = None \<and> names_in_sync (snd (on_new_pa_sink i struct mgr))"
proof -
  let ?n = "sink_info_name struct"
  from sync have ix: "sinks_indexed mgr" and d1: "distinct (map fst (pa_sinks mgr))"
    and d2: "distinct (map fst (pa_sinks_by_name mgr))"
    and eq: "set (pa_sinks_by_name mgr) = name_entries mgr"
    by (simp_all add: names_in_sync_def)
  from known obtain r where r: "map_of (pa_sinks mgr) i = Some r"
    by (auto simp: dict_contains_def dict_keys_def dest: weak_map_of_SomeI)
  then have mem: "(i, r) \<in> set (pa_sinks mgr)" by (rule map_of_SomeD)
  let ?o = "sink_name (sink_objects mgr ! r)"
  obtain s calls where su: "Sink_update mgr struct (sink_objects mgr ! r) = (s, calls)"
    by (cases "Sink_update mgr struct (sink_objects mgr ! r)")
  then have sn: "sink_name s = ?n" using sink_name_Sink_update [of mgr struct "sink_objects mgr ! r"]
    by simp
  from mem have "(?o, r) \<in> name_entries mgr" by (force simp: name_entries_def)
  with eq have omem: "(?o, r) \<in> set (pa_sinks_by_name mgr)" by simp
  then have ocont: "dict_contains ?o (pa_sinks_by_name mgr)"
    by (force simp: dict_contains_def dict_keys_def)
  let ?mgr' = "snd (on_new_pa_sink i struct mgr)"
  have flds: "sink_objects ?mgr' = (sink_objects mgr)[r := s]"
    "pa_sinks ?mgr' = pa_sinks mgr"
    "pa_sinks_by_name ?mgr' = dict_setitem (dict_remove ?o (pa_sinks_by_name mgr)) ?n r"
    and ok: "fst (on_new_pa_sink i struct mgr) = None"
    using known r su sn ocont
    by (simp_all add: on_new_pa_sink_def Let_def dict_getitem_def dict_delitem_def)
  have ix': "sinks_indexed ?mgr'"
    using sinks_indexed_on_new_pa_sink [OF ix] .
  have rlen: "r < length (sink_objects mgr)"
    using mem ix by (auto simp: sinks_indexed_def list_all_iff)
  have key_unique: "b = r" if "(?o, b) \<in> set (pa_sinks_by_name mgr)" for b
    using that omem d2 by (meson eq_key_imp_eq_value)
  have d3: "distinct (map fst (dict_remove ?o (pa_sinks_by_name mgr)))"
    by (rule distinct_dict_remove [OF d2])
  have bn: "set (pa_sinks_by_name ?mgr')
              = {p \<in> set (pa_sinks_by_name mgr). fst p \<noteq> ?o \<and> fst p \<noteq> ?n} \<union> {(?n, r)}"
    by (auto simp: flds set_dict_setitem_eq [OF d3] set_dict_remove_eq)
  have ne: "name_entries ?mgr'
              = {p \<in> name_entries mgr. fst p \<noteq> ?o \<and> fst p \<noteq> ?n} \<union> {(?n, r)}"
  proof (intro set_eqI iffI)
    fix q
    assume "q \<in> name_entries ?mgr'"
    then obtain p where p: "p \<in> set (pa_sinks mgr)"
      and q: "q = (sink_name ((sink_objects mgr)[r := s] ! snd p), snd p)"
      by (auto simp: name_entries_def flds)
    show "q \<in> {p \<in> name_entries mgr. fst p \<noteq> ?o \<and> fst p \<noteq> ?n} \<union> {(?n, r)}"
    proof (cases "snd p = r")
      case True
      then show ?thesis using q rlen sn by simp
    next
      case False
      then have q': "q = (sink_name (sink_objects mgr ! snd p), snd p)" using q by simp
      then have qin: "q \<in> name_entries mgr" using p by (auto simp: name_entries_def)
      have "fst p \<noteq> i"
      proof
        assume "fst p = i"
        with p have "(i, snd p) \<in> set (pa_sinks mgr)" by (metis prod.collapse)
        with mem d1 have "snd p = r" by (meson eq_key_imp_eq_value)
        with False show False by simp
      qed
      with uniq p have n1: "fst q \<noteq> ?n" by (simp add: q')
      have "fst q \<noteq> ?o"
      proof
        assume "fst q = ?o"
        then have "(?o, snd p) \<in> set (pa_sinks_by_name mgr)" using qin eq q' by simp
        from key_unique [OF this] False show False by simp
      qed
      with n1 qin show ?thesis by simp
    qed
  next
    fix q
    assume "q \<in> {p \<in> name_entries mgr. fst p \<noteq> ?o \<and> fst p \<noteq> ?n} \<union> {(?n, r)}"
    then consider "q = (?n, r)" | "q \<in> name_entries mgr" "fst q \<noteq> ?o" by blast
    then show "q \<in> name_entries ?mgr'"
    proof cases
      case 1
      have "(sink_name ((sink_objects mgr)[r := s] ! snd (i, r)), snd (i, r)) = (?n, r)"
        using rlen sn by simp
      with mem 1 show ?thesis
        unfolding name_entries_def flds by (metis (mono_tags, lifting) image_eqI)
    next
      case 2
      then obtain p where p: "p \<in> set (pa_sinks mgr)"
        and q: "q = (sink_name (sink_objects mgr ! snd p), snd p)"
        by (auto simp: name_entries_def)
      with 2 have "snd p \<noteq> r" by auto
      then have "q = (sink_name ((sink_objects mgr)[r := s] ! snd p), snd p)" using q by simp
      with p show ?thesis unfolding name_entries_def flds by blast
    qed
  qed
  from bn ne eq have "set (pa_sinks_by_name ?mgr') = name_entries ?mgr'" by simp
  moreover have "distinct (map fst (pa_sinks_by_name ?mgr'))"
    by (simp add: flds distinct_dict_setitem [OF d3])
  ultimately show ?thesis using ok ix' d1 by (simp add: names_in_sync_def flds)
qed

lemma upsert_keeps_names_in_sync:
  assumes "names_in_sync mgr"
    and "\<forall>p \<in> set (pa_sinks mgr).
           fst p \<noteq> i \<longrightarrow> sink_name (sink_objects mgr ! snd p) \<noteq> sink_info_name struct"
  shows "fst (on_new_pa_sink i struct mgr) = None \<and> names_in_sync (snd (on_new_pa_sink i struct mgr))"
proof (cases "dict_contains i (pa_sinks mgr)")
  case True
  show ?thesis by (rule upsert_known_keeps_names_in_sync [OF assms(1) True assms(2)])
next
  case False
  then have "\<forall>p \<in> set (pa_sinks mgr). fst p \<noteq> i"
    by (auto simp: dict_contains_def dict_keys_def)
  with assms(2) have "\<forall>p \<in> set (pa_sinks mgr).
      sink_name (sink_objects mgr ! snd p) \<noteq> sink_info_name struct" by blast
  with assms(1) False show ?thesis by (intro upsert_new_keeps_names_in_sync)
qed

lemma names_in_sync_init: "names_in_sync init_manager"
  by (simp add: names_in_sync_def sinks_indexed_def name_entries_def init_manager_def)

lemma removal_breaks_names_in_sync:
  assumes "names_in_sync mgr" and "dict_contains i (pa_sinks mgr)"
  shows "\<not> names_in_sync (snd (on_remove_pa_sink i mgr))"
proof -
  from assms(1) have ix: "sinks_indexed mgr" and d1: "distinct (map fst (pa_sinks mgr))"
    and eq: "set (pa_sinks_by_name mgr) = name_entries mgr"
    by (simp_all add: names_in_sync_def)
  from assms(2) obtain r where r: "map_of (pa_sinks mgr) i = Some r"
    by (auto simp: dict_contains_def dict_keys_def dest: weak_map_of_SomeI)
  then have mem: "(i, r) \<in> set (pa_sinks mgr)" by (rule map_of_SomeD)
  let ?mgr' = "snd (on_remove_pa_sink i mgr)"
  have flds: "pa_sinks ?mgr' = dict_remove i (pa_sinks mgr)"
    "pa_sinks_by_name ?mgr' = pa_sinks_by_name mgr" "sink_objects ?mgr' = sink_objects mgr"
    using r by (simp_all add: on_remove_pa_sink_def dict_pop_def pa_sink_index_by_name_def
        getattr_def)
  have only: "fst p = i" if "p \<in> set (pa_sinks mgr)" and "snd p = r" for p
  proof -
    from that ix have "idx (sink_objects mgr ! r) = fst p"
      by (auto simp: sinks_indexed_def list_all_iff)
    moreover from mem ix have "idx (sink_objects mgr ! r) = i"
      by (auto simp: sinks_indexed_def list_all_iff)
    ultimately show ?thesis by simp
  qed
  let ?e = "(sink_name (sink_objects mgr ! r), r)"
  from mem have "?e \<in> name_entries mgr" by (force simp: name_entries_def)
  with eq have stale: "?e \<in> set (pa_sinks_by_name ?mgr')" by (simp add: flds)
  have "?e \<notin> name_entries ?mgr'"
  proof
    assume "?e \<in> name_entries ?mgr'"
    then obtain p where "p \<in> set (dict_remove i (pa_sinks mgr))" and "snd p = r"
      by (auto simp: name_entries_def flds)
    then have "p \<in> set (pa_sinks mgr)" "fst p \<noteq> i" "snd p = r"
      by (simp_all add: set_dict_remove_eq)
    with only show False by blast
  qed
  with stale show ?thesis by (auto simp: names_in_sync_def)
qed

text \<open>
  C2, on the code. \<open>_on_remove_pa_sink\<close> never changes the dictionary by name, never
  queues a call and always raises. For one, after sink 1 of name \<open>a\<close> is reported and
  then removed, the index dictionary is empty and the dictionary by name still holds
  \<open>a\<close>: a stale entry, where C2 says there is none.
\<close>

theorem remove_sink_leaves_name:
  "pa_sinks_by_name (snd (on_remove_pa_sink i mgr)) = pa_sinks_by_name mgr
   \<and> idle_calls (snd (on_remove_pa_sink i mgr)) = idle_calls mgr
   \<and> fst (on_remove_pa_sink i mgr) \<noteq> None
   \<and> handle (Remove_sink 1) (run [New_sink 1 (example_sink_info ''a'' 2 50)])
       = (Some AttributeError, run [New_sink 1 (example_sink_info ''a'' 2 50), Remove_sink 1])
   \<and> pa_sinks (run [New_sink 1 (example_sink_info ''a'' 2 50)]) = [(1, 0)]
   \<and> pa_sinks_by_name (run [New_sink 1 (example_sink_info ''a'' 2 50)]) = [(''a'', 0)]
   \<and> pa_sinks (run [New_sink 1 (example_sink_info ''a'' 2 50), Remove_sink 1]) = []
   \<and> pa_sinks_by_name (run [New_sink 1 (example_sink_info ''a'' 2 50), Remove_sink 1])
       = [(''a'', 0)]"
proof -
  have g: "pa_sinks_by_name (snd (on_remove_pa_sink i mgr)) = pa_sinks_by_name mgr
   \<and> idle_calls (snd (on_remove_pa_sink i mgr)) = idle_calls mgr
   \<and> fst (on_remove_pa_sink i mgr) \<noteq> None"
    by (simp add: on_remove_pa_sink_def dict_pop_def pa_sink_index_by_name_def getattr_def
      split: option.splits)
  have c: "handle (Remove_sink 1) (run [New_sink 1 (example_sink_info ''a'' 2 50)])
       = (Some AttributeError, run [New_sink 1 (example_sink_info ''a'' 2 50), Remove_sink 1])
   \<and> pa_sinks (run [New_sink 1 (example_sink_info ''a'' 2 50)]) = [(1, 0)]
   \<and> pa_sinks_by_name (run [New_sink 1 (example_sink_info ''a'' 2 50)]) = [(''a'', 0)]
   \<and> pa_sinks (run [New_sink 1 (example_sink_info ''a'' 2 50), Remove_sink 1]) = []
   \<and> pa_sinks_by_name (run [New_sink 1 (example_sink_info ''a'' 2 50), Remove_sink 1])
       = [(''a'', 0)]"
    by (simp add: run_def handler_defs dict_defs init_manager_def Sink_init_example
        pa_sink_index_by_name_def)
  from g c show ?thesis by blast
qed

subsection \<open>C5: the main sink\<close>

text \<open>Without a default sink the main sink is the first entry of the index
  dictionary; with one it is what the dictionary by name holds for it.\<close>

lemma get_main_sink_no_marker:
  "default_sink mgr = None \<Longrightarrow> pa_sinks mgr = (i, r) # rest \<Longrightarrow> get_main_sink mgr = Inr (Some r)"
  by (simp add: get_main_sink_def get_first_sink_def dict_defs)

lemma get_main_sink_marker:
  "default_sink mgr = Some n \<Longrightarrow>
     get_main_sink mgr = (case map_of (pa_sinks_by_name mgr) n of
                            None \<Rightarrow> Inl KeyError | Some r \<Rightarrow> Inr (Some r))"
  by (simp add: get_main_sink_def dict_getitem_def split: option.splits)

text \<open>
  C5, on the code. With the sinks 5, 2, 9 reported in this order and no default sink,
  the main sink is the first object (sink 5); with the default sink set to the name of
  sink 9 it is that object; with the default sink set to a name no sink has,
  \<open>get_main_sink\<close> raises \<open>KeyError\<close>. But after sink 1 of name \<open>a\<close> is reported,
  made the default and removed, no live sink has the name \<open>a\<close> and \<open>get_main_sink\<close>
  returns the removed object, where C5 says it raises.
\<close>

theorem main_sink_after_removal:
  "map (\<lambda>p. idx (sink_objects (run example_three_sinks) ! snd p)) (pa_sinks (run example_three_sinks))
     = [5, 2, 9]
   \<and> get_main_sink (run example_three_sinks) = Inr (Some 0)
   \<and> idx (sink_objects (run example_three_sinks) ! 0) = 5
   \<and> get_main_sink (run (example_three_sinks @ [Default_sink (Some ''c'')])) = Inr (Some 2)
   \<and> idx (sink_objects (run (example_three_sinks @ [Default_sink (Some ''c'')])) ! 2) = 9
   \<and> get_main_sink (run (example_three_sinks @ [Default_sink (Some ''z'')])) = Inl KeyError
   \<and> pa_sinks (run [New_sink 1 (example_sink_info ''a'' 2 50), Default_sink (Some ''a''),
                     Remove_sink 1]) = []
   \<and> get_main_sink (run [New_sink 1 (example_sink_info ''a'' 2 50), Default_sink (Some ''a''),
                          Remove_sink 1]) = Inr (Some 0)
   \<and> sink_name (sink_objects (run [New_sink 1 (example_sink_info ''a'' 2 50),
                                    Default_sink (Some ''a''), Remove_sink 1]) ! 0) = ''a''"
  by (simp add: example_three_sinks_def run_def handler_defs dict_defs init_manager_def
      Sink_init_example pa_sink_index_by_name_def get_main_sink_def get_first_sink_def)

end
